theory Spec2Isabelle
  imports Complex_Main
begin

section \<open>FESTIM: the orchestration of \<open>run\<close> in generic_simulation.py\<close>

text \<open>
  \<open>run(parameters, log_level)\<close> builds the finite-element problem through calls into the
  rest of FESTIM and into FEniCS, then either steps through time or solves once. The model
  keeps the control flow of \<open>run\<close> as it is written and takes every collaborator (mesh
  builder, formulations, nonlinear solvers, post-processing, exporters) as a field of an
  environment record, so that every theorem holds for any behaviour of those collaborators.
  Field values are of an arbitrary type \<open>'f\<close>; floats are read as exact reals.
\<close>

subsection \<open>Exceptions\<close>

text \<open>
  The exceptions \<open>run\<close> raises itself or lets through: \<open>ValueError\<close> (line 65),
  \<open>KeyError\<close> (a missing key of \<open>solving_parameters\<close>, lines 71-72), \<open>TypeError\<close> (the
  only one caught, line 52), \<open>IndexError\<close> (list indexing in the two trap loops) and any
  other exception of a collaborator, named by its class.
\<close>

datatype error =
    ValueError string
  | KeyError string
  | TypeError
  | IndexError
  | OtherError string

subsection \<open>The parameters dictionary\<close>

text \<open>
  \<open>parameters\<close> is a nested dictionary used as a structure. Each dictionary is a record of
  the keys \<open>run\<close> reads; a key whose presence \<open>run\<close> tests or may miss is an option
  (\<open>None\<close>: the key is absent), and a missing key that \<open>run\<close> subscripts is a KeyError.
  \<open>solving_parameters\<close>, \<open>temperature\<close> with its \<open>type\<close>, and \<open>traps\<close> are taken to be
  there: the loop reads them in every iteration. The payloads of \<open>mesh_parameters\<close> and
  \<open>materials\<close>, and the keys that only collaborators read (boundary_conditions,
  initial_conditions, the \<open>value\<close> and \<open>initial_condition\<close> of the temperature), belong to
  the environment.
\<close>

record exports_dict =
  ex_parameters :: "string option"
  ex_xdmf :: "string option"
  ex_derived_quantities :: "string option"
  ex_error :: "string option"

record solving_parameters_dict =
  sp_type :: "string option"
  sp_final_time :: "real option"
  sp_initial_stepsize :: "real option"
  sp_traps_element_type :: "string option"

record temperature_dict =
  temp_type :: string

record trap_dict =
  trap_type :: "string option"

record parameters =
  exports :: "exports_dict option"
  solving_parameters :: solving_parameters_dict
  mesh_parameters :: "string option"
  temperature :: temperature_dict
  materials :: "string option"
  traps :: "trap_dict list"

subsection \<open>Simulation state\<close>

text \<open>
  A time-dependent expression carries its time \<open>t\<close>; some carry an inner expression
  \<open>_bci\<close> with a time of its own (\<open>None\<close>: no such attribute).
\<close>

record expression =
  expr_t :: real
  bci_t :: "real option"

text \<open>
  A material property reads the temperature through its attribute \<open>_T\<close>, a reference to a
  Function object. \<open>T\<close> and \<open>T_n\<close> are the two temperature objects of \<open>run\<close>.
\<close>

datatype field_ref = Ref_T | Ref_T_n | Ref_other

text \<open>
  The six properties that \<open>create_properties\<close> returns (line 126), each with the object
  its \<open>_T\<close> refers to; all but \<open>D\<close> may be \<open>None\<close>. The loop assigns to the \<open>_T\<close> of
  \<open>D\<close>, \<open>H\<close>, \<open>thermal_cond\<close> and \<open>S\<close>; nothing in \<open>run\<close> assigns to that of \<open>cp\<close> or
  \<open>rho\<close>.
\<close>

record properties =
  D_T :: field_ref
  thermal_cond_T :: "field_ref option"
  cp_T :: "field_ref option"
  rho_T :: "field_ref option"
  H_T :: "field_ref option"
  S_T :: "field_ref option"

datatype property = Prop_D | Prop_thermal_cond | Prop_cp | Prop_rho | Prop_H | Prop_S

type_synonym bc = nat

type_synonym dq_row = "string list"

text \<open>
  The calls and assignments of \<open>run\<close>, in the order they are executed. The trace is
  instrumentation: the source keeps no such list.
\<close>

datatype event =
    Call_export_parameters
  | Call_set_log_level int
  | Call_create_mesh
  | Call_subdomains
  | Call_create_function_space nat string
  | Interpolate_T real
  | Interpolate_T_ini
  | Assign_T_n
  | Call_define_dirichlet_bcs_T
  | Call_define_variational_problem_heat_transfers
  | Solve_heat_stationary
  | Call_create_properties
  | Call_initialise_solutions
  | Call_initialise_extrinsic_traps nat
  | Call_formulation
  | Call_apply_boundary_conditions
  | Call_apply_fluxes
  | Call_formulation_extrinsic_traps
  | Call_define_xdmf_files
  | Call_header_derived_quantities
  | Advance_time real
  | Call_update_expressions real
  | Rebind property
  | Update_bci real
  | Solve_heat real real
  | Call_solve_it real
  | Solve_extrinsic nat "bc list"
  | Call_run_post_processing real bool
  | Assign_u_n
  | Assign_previous_trap nat
  | Call_solve_once
  | Call_compute_error real
  | Call_write_to_csv

text \<open>
  The local variables of \<open>run\<close> that live across the loop. \<open>n_iter\<close> (completed loop
  iterations) and \<open>trace\<close> are instrumentation.
\<close>

record 'f sim_state =
  st_t :: real
  st_dt :: real
  st_T :: 'f
  st_T_n :: 'f
  st_T_expr_t :: real
  st_u :: 'f
  st_u_n :: 'f
  extrinsic_traps :: "'f list"
  previous_solutions_traps :: "'f list"
  extrinsic_formulations :: nat
  expressions :: "expression list"
  props :: properties
  append_flag :: bool
  derived_quantities_global :: "dq_row list"
  n_iter :: nat
  trace :: "event list"

subsection \<open>Collaborators\<close>

text \<open>
  What the code outside generic_simulation.py returns. A solver or exporter that may raise
  returns a sum. \<open>dt\<close> is a mutable Constant handed to \<open>solve_it\<close> and to
  \<open>run_post_processing\<close>, which may change it in place: both return its new value.
  \<open>run_post_processing\<close> receives the list \<open>derived_quantities_global\<close> and appends to it
  in place: it returns the new list. It is handed \<open>u\<close> and \<open>T\<close>, which it only reads, and
  none of the trap fields. \<open>formulation_extrinsic_traps\<close> gives the number of formulations
  it builds, \<open>initialise_extrinsic_traps\<close> the list of previous trap solutions.
\<close>

record 'f env =
  export_parameters :: "parameters \<Rightarrow> error option"
  Function_V :: 'f
  Function_W :: 'f
  interpolate_T_expr :: "real \<Rightarrow> 'f"
  interpolate_T_ini :: 'f
  solve_FT_stationary :: "'f \<Rightarrow> 'f \<Rightarrow> error + 'f"
  create_properties :: properties
  initialise_solutions :: 'f
  initialise_extrinsic_traps :: "nat \<Rightarrow> 'f list"
  formulation_extrinsic_traps :: "trap_dict list \<Rightarrow> nat"
  expressions_bcs_T :: "expression list"
  expressions_FT :: "expression list"
  expressions_F :: "expression list"
  expressions_BC :: "expression list"
  expressions_fluxes :: "expression list"
  expressions_extrinsic :: "expression list"
  header_derived_quantities :: dq_row
  solve_FT_transient :: "real \<Rightarrow> real \<Rightarrow> 'f sim_state \<Rightarrow> error + 'f"
  solve_it :: "'f sim_state \<Rightarrow> error + ('f \<times> real)"
  solve_once :: "'f sim_state \<Rightarrow> error + 'f"
  solve_extrinsic :: "nat \<Rightarrow> bc list \<Rightarrow> 'f sim_state \<Rightarrow> error + 'f"
  run_post_processing :: "'f sim_state \<Rightarrow> error + (dq_row list \<times> real)"
  compute_error :: "'f sim_state \<Rightarrow> real"

type_synonym 'f result = "(error \<times> event list) + 'f sim_state"

definition emit :: "event \<Rightarrow> 'f sim_state \<Rightarrow> 'f sim_state" where
  "emit e st = st\<lparr>trace := trace st @ [e]\<rparr>"

definition raise :: "error \<Rightarrow> 'f sim_state \<Rightarrow> 'f result" where
  "raise e st = Inl (e, trace st)"

definition and_then :: "'f result \<Rightarrow> ('f sim_state \<Rightarrow> 'f result) \<Rightarrow> 'f result" where
  "and_then r f = (case r of Inl x \<Rightarrow> Inl x | Inr st \<Rightarrow> f st)"

subsection \<open>One iteration of the time loop (lines 185-250)\<close>

text \<open>
  Modelled from the spec: \<open>FESTIM.helpers.update_expressions\<close> is not in
  generic_simulation.py; section 4.1 step b says it pushes the new time into every
  time-dependent expression.
\<close>

definition update_expressions :: "expression list \<Rightarrow> real \<Rightarrow> expression list" where
  "update_expressions exprs tm = map (\<lambda>e. e\<lparr>expr_t := tm\<rparr>) exprs"

text \<open>Lines 186-188: \<open>t += float(dt)\<close>, then the registered expressions.\<close>

definition advance_time :: "'f sim_state \<Rightarrow> 'f sim_state" where
  "advance_time st =
    (let st1 = emit (Advance_time (st_t st + st_dt st)) (st\<lparr>st_t := st_t st + st_dt st\<rparr>)
     in emit (Call_update_expressions (st_t st1))
          (st1\<lparr>expressions := update_expressions (expressions st1) (st_t st1)\<rparr>))"

text \<open>Lines 190-193: a temperature given as an expression is evaluated, not solved.\<close>

definition update_T_expr :: "'f env \<Rightarrow> parameters \<Rightarrow> 'f sim_state \<Rightarrow> 'f sim_state" where
  "update_T_expr env p st =
    (if temp_type (temperature p) = ''expression'' then
       (let st1 = emit Assign_T_n (st\<lparr>st_T_n := st_T st\<rparr>);
            st2 = st1\<lparr>st_T_expr_t := st_t st1\<rparr>
        in emit (Interpolate_T (st_T_expr_t st2))
             (st2\<lparr>st_T := interpolate_T_expr env (st_T_expr_t st2)\<rparr>))
     else st)"

text \<open>Line 201-203: \<open>expr._bci.t = t\<close> for the expressions that have a \<open>_bci\<close>.\<close>

definition update_bci :: "expression list \<Rightarrow> real \<Rightarrow> expression list" where
  "update_bci exprs tm =
    map (\<lambda>e. if bci_t e \<noteq> None then e\<lparr>bci_t := Some tm\<rparr> else e) exprs"

text \<open>Lines 194-203: \<open>D._T = T\<close> and the same for \<open>H\<close>, \<open>thermal_cond\<close>, \<open>S\<close> when present.\<close>

definition rebind_D :: "'f sim_state \<Rightarrow> 'f sim_state" where
  "rebind_D st = emit (Rebind Prop_D) (st\<lparr>props := (props st)\<lparr>D_T := Ref_T\<rparr>\<rparr>)"

definition rebind_H :: "'f sim_state \<Rightarrow> 'f sim_state" where
  "rebind_H st =
    (if H_T (props st) \<noteq> None
     then emit (Rebind Prop_H) (st\<lparr>props := (props st)\<lparr>H_T := Some Ref_T\<rparr>\<rparr>)
     else st)"

definition rebind_thermal_cond :: "'f sim_state \<Rightarrow> 'f sim_state" where
  "rebind_thermal_cond st =
    (if thermal_cond_T (props st) \<noteq> None
     then emit (Rebind Prop_thermal_cond)
            (st\<lparr>props := (props st)\<lparr>thermal_cond_T := Some Ref_T\<rparr>\<rparr>)
     else st)"

definition rebind_S :: "'f sim_state \<Rightarrow> 'f sim_state" where
  "rebind_S st =
    (if S_T (props st) \<noteq> None
     then emit (Update_bci (st_t st))
            ((emit (Rebind Prop_S) (st\<lparr>props := (props st)\<lparr>S_T := Some Ref_T\<rparr>\<rparr>))
               \<lparr>expressions := update_bci (expressions st) (st_t st)\<rparr>)
     else st)"

definition refresh_properties :: "'f sim_state \<Rightarrow> 'f sim_state" where
  "refresh_properties st = rebind_S (rebind_thermal_cond (rebind_H (rebind_D st)))"

text \<open>
  Lines 211-222: the transient heat problem, with the two Newton tolerances written in the
  source, then \<open>T_n.assign(T)\<close>. The solver writes its solution into \<open>T\<close>.
\<close>

definition heat_abs_tol :: real where
  "heat_abs_tol = 1 / 10 ^ 3"

definition heat_rel_tol :: real where
  "heat_rel_tol = 1 / 10 ^ 10"

definition solve_heat_transfers :: "'f env \<Rightarrow> parameters \<Rightarrow> 'f sim_state \<Rightarrow> 'f result" where
  "solve_heat_transfers env p st =
    (if temp_type (temperature p) = ''solve_transient'' then
       (let st1 = emit (Solve_heat heat_abs_tol heat_rel_tol) st
        in case solve_FT_transient env heat_abs_tol heat_rel_tol st1 of
             Inl e \<Rightarrow> raise e st1
           | Inr T_new \<Rightarrow>
               (let st2 = st1\<lparr>st_T := T_new\<rparr>
                in Inr (emit Assign_T_n (st2\<lparr>st_T_n := st_T st2\<rparr>))))
     else Inr st)"

text \<open>Lines 224-226: the transport problem. \<open>solve_it\<close> writes into \<open>u\<close> and may change \<open>dt\<close>.\<close>

definition solve_main_problem :: "'f env \<Rightarrow> 'f sim_state \<Rightarrow> 'f result" where
  "solve_main_problem env st =
    (let st1 = emit (Call_solve_it (st_t st)) st
     in case solve_it env st1 of
          Inl e \<Rightarrow> raise e st1
        | Inr (u_new, dt_new) \<Rightarrow> Inr (st1\<lparr>st_u := u_new, st_dt := dt_new\<rparr>))"

text \<open>
  Lines 228-230: \<open>for j in range(len(extrinsic_formulations))\<close>, each solve with the empty
  list of boundary conditions. \<open>extrinsic_traps[j]\<close> raises IndexError out of range.
\<close>

fun solve_extrinsic_traps :: "'f env \<Rightarrow> nat list \<Rightarrow> 'f sim_state \<Rightarrow> 'f result" where
  "solve_extrinsic_traps env [] st = Inr st"
| "solve_extrinsic_traps env (j # js) st =
    (if j < length (extrinsic_traps st) then
       (let st1 = emit (Solve_extrinsic j []) st
        in case solve_extrinsic env j [] st1 of
             Inl e \<Rightarrow> raise e st1
           | Inr f \<Rightarrow>
               solve_extrinsic_traps env js
                 (st1\<lparr>extrinsic_traps := (extrinsic_traps st1)[j := f]\<rparr>))
     else raise IndexError st)"

text \<open>
  Lines 232-244: the call of \<open>run_post_processing\<close>; its return value is dropped, what
  it changes in place is kept. Line 245: \<open>append = True\<close>.
\<close>

definition post_processing :: "'f env \<Rightarrow> 'f sim_state \<Rightarrow> 'f result" where
  "post_processing env st =
    (let st1 = emit (Call_run_post_processing (st_t st) (append_flag st)) st
     in case run_post_processing env st1 of
          Inl e \<Rightarrow> raise e st1
        | Inr (dq, dt_new) \<Rightarrow>
            Inr (st1\<lparr>derived_quantities_global := dq, st_dt := dt_new\<rparr>))"

definition set_append :: "'f sim_state \<Rightarrow> 'f result" where
  "set_append st = Inr (st\<lparr>append_flag := True\<rparr>)"

text \<open>
  Lines 247-250: \<open>u_n.assign(u)\<close>, then
  \<open>for j in range(len(previous_solutions_traps))\<close> the same for each trap.
\<close>

fun assign_previous_traps :: "nat list \<Rightarrow> 'f sim_state \<Rightarrow> 'f result" where
  "assign_previous_traps [] st = Inr st"
| "assign_previous_traps (j # js) st =
    (if j < length (extrinsic_traps st) then
       assign_previous_traps js
         (emit (Assign_previous_trap j)
            (st\<lparr>previous_solutions_traps :=
                  (previous_solutions_traps st)[j := extrinsic_traps st ! j]\<rparr>))
     else raise IndexError st)"

definition update_previous_solutions :: "'f sim_state \<Rightarrow> 'f result" where
  "update_previous_solutions st =
    (let st1 = emit Assign_u_n (st\<lparr>st_u_n := st_u st\<rparr>)
     in assign_previous_traps [0 ..< length (previous_solutions_traps st1)] st1)"

text \<open>
  The loop body in three parts: lines 186-209 (no solve; the progress line of lines
  204-209 is only printed), lines 211-230 (the solves), lines 232-250 (post-processing and
  the update of the previous solutions).
\<close>

definition begin_step :: "'f env \<Rightarrow> parameters \<Rightarrow> 'f sim_state \<Rightarrow> 'f sim_state" where
  "begin_step env p st = refresh_properties (update_T_expr env p (advance_time st))"

definition solve_step :: "'f env \<Rightarrow> parameters \<Rightarrow> 'f sim_state \<Rightarrow> 'f result" where
  "solve_step env p st =
    and_then (and_then (solve_heat_transfers env p st) (solve_main_problem env))
      (\<lambda>st2. solve_extrinsic_traps env [0 ..< extrinsic_formulations st2] st2)"

definition finish_step :: "'f env \<Rightarrow> 'f sim_state \<Rightarrow> 'f result" where
  "finish_step env st =
    and_then (and_then (and_then (post_processing env st) set_append)
                update_previous_solutions)
      (\<lambda>st5. Inr (st5\<lparr>n_iter := Suc (n_iter st5)\<rparr>))"

definition time_step :: "'f env \<Rightarrow> parameters \<Rightarrow> 'f sim_state \<Rightarrow> 'f result" where
  "time_step env p st = and_then (solve_step env p (begin_step env p st)) (finish_step env)"

text \<open>
  Line 184: \<open>while t < final_time\<close>. The loop need not end (a step size that is not
  positive), so the result is an option: \<open>None\<close> is a run that never returns.
\<close>

partial_function (option) time_loop ::
  "'f env \<Rightarrow> parameters \<Rightarrow> real \<Rightarrow> 'f sim_state \<Rightarrow> 'f result option" where
  "time_loop env p final_time st =
    (if st_t st < final_time then
       (case time_step env p st of
          Inl x \<Rightarrow> Some (Inl x)
        | Inr st' \<Rightarrow> time_loop env p final_time st')
     else Some (Inr st))"

subsection \<open>Before the loop (lines 48-178)\<close>

text \<open>
  Lines 48-53: \<open>parameters["exports"]\<close> is a KeyError when the key is missing; the
  parameters are exported when \<open>exports\<close> has the key \<open>parameters\<close>; of the exceptions of
  \<open>export_parameters\<close> only TypeError is caught.
\<close>

definition export_stage :: "'f env \<Rightarrow> parameters \<Rightarrow> (error \<times> event list) + event list" where
  "export_stage env p =
    (case exports p of
       None \<Rightarrow> Inl (KeyError ''exports'', [])
     | Some ex \<Rightarrow>
         if ex_parameters ex \<noteq> None then
           (case export_parameters env p of
              None \<Rightarrow> Inr [Call_export_parameters]
            | Some e \<Rightarrow>
                if e = TypeError then Inr [Call_export_parameters]
                else Inl (e, [Call_export_parameters]))
         else Inr [])"

text \<open>Lines 57-66: the mode. The last \<open>elif\<close> repeats the outer test.\<close>

definition check_transient :: "solving_parameters_dict \<Rightarrow> error + bool" where
  "check_transient sp =
    (case sp_type sp of
       None \<Rightarrow> Inr True
     | Some ty \<Rightarrow>
         if ty = ''solve_transient'' then Inr True
         else if ty = ''solve_stationary'' then Inr False
         else if sp_type sp \<noteq> None then Inl (ValueError (ty @ '' unkown''))
         else Inr True)"

text \<open>
  Lines 94-123: the temperature. The result is \<open>T\<close>, \<open>T_n\<close>, the expressions registered
  so far and the trace.
\<close>

definition setup_temperature ::
  "'f env \<Rightarrow> parameters \<Rightarrow> event list \<Rightarrow>
     (error \<times> event list) + ('f \<times> 'f \<times> expression list \<times> event list)" where
  "setup_temperature env p tr =
    (if temp_type (temperature p) = ''expression'' then
       (let T0 = interpolate_T_expr env 0
        in Inr (T0, T0, [], tr @ [Interpolate_T 0, Assign_T_n]))
     else
       (let T_n0 = (if temp_type (temperature p) = ''solve_transient''
                    then interpolate_T_ini env else Function_W env);
            tr1 = tr @ (if temp_type (temperature p) = ''solve_transient''
                        then [Interpolate_T_ini] else [])
                     @ [Call_define_dirichlet_bcs_T,
                        Call_define_variational_problem_heat_transfers];
            exprs = expressions_bcs_T env @ expressions_FT env
        in if temp_type (temperature p) = ''solve_stationary'' then
             (case solve_FT_stationary env (Function_W env) T_n0 of
                Inl e \<Rightarrow> Inl (e, tr1 @ [Solve_heat_stationary])
              | Inr T1 \<Rightarrow> Inr (T1, T_n0, exprs, tr1 @ [Solve_heat_stationary]))
           else Inr (Function_W env, T_n0, exprs, tr1)))"

text \<open>Lines 131-132: \<open>if "type" in d.keys() if d["type"] == "extrinsic"\<close>.\<close>

definition is_extrinsic :: "trap_dict \<Rightarrow> bool" where
  "is_extrinsic d = (case trap_type d of None \<Rightarrow> False | Some ty \<Rightarrow> ty = ''extrinsic'')"

text \<open>
  Lines 75-178: mesh, function spaces, temperature, properties, unknowns, formulations,
  boundary conditions, export files. \<open>extrinsic_formulations\<close> is assigned in a transient
  run only. A missing \<open>mesh_parameters\<close> (line 76), \<open>materials\<close> (line 128) or \<open>exports\<close>
  (line 170) is a KeyError at the line that subscripts it.
\<close>

definition build_problem :: "'f env \<Rightarrow> parameters \<Rightarrow> bool \<Rightarrow> real \<Rightarrow> event list \<Rightarrow> 'f result" where
  "build_problem env p transient dt0 tr =
    (case mesh_parameters p of
       None \<Rightarrow> Inl (KeyError ''mesh_parameters'', tr)
     | Some mesh_pars \<Rightarrow>
    (let trap_element = (case sp_traps_element_type (solving_parameters p) of
                           Some el \<Rightarrow> el | None \<Rightarrow> ''CG'');
         tr1 = tr @ [Call_create_mesh, Call_subdomains,
                     Call_create_function_space (length (traps p)) trap_element]
     in case setup_temperature env p tr1 of
          Inl x \<Rightarrow> Inl x
        | Inr (T0, T_n0, exprs0, tr2) \<Rightarrow>
    (case materials p of
       None \<Rightarrow> Inl (KeyError ''materials'', tr2)
     | Some mats \<Rightarrow>
    (let n_ext = length (filter is_extrinsic (traps p));
         tr3 = tr2 @ [Call_create_properties, Call_initialise_solutions,
                      Call_initialise_extrinsic_traps n_ext, Call_formulation,
                      Call_apply_boundary_conditions, Call_apply_fluxes]
                   @ (if transient then [Call_formulation_extrinsic_traps] else [])
     in case exports p of
          None \<Rightarrow> Inl (KeyError ''exports'', tr3)
        | Some ex \<Rightarrow>
            Inr \<lparr> st_t = 0, st_dt = dt0, st_T = T0, st_T_n = T_n0, st_T_expr_t = 0,
                  st_u = Function_V env, st_u_n = initialise_solutions env,
                  extrinsic_traps = replicate n_ext (Function_W env),
                  previous_solutions_traps = initialise_extrinsic_traps env n_ext,
                  extrinsic_formulations =
                    (if transient then formulation_extrinsic_traps env (traps p) else 0),
                  expressions =
                    exprs0 @ expressions_F env
                      @ (expressions_BC env @ expressions_fluxes env)
                      @ (if transient then expressions_extrinsic env else []),
                  props = create_properties env,
                  append_flag = False,
                  derived_quantities_global =
                    (if ex_derived_quantities ex \<noteq> None
                     then [header_derived_quantities env] else []),
                  n_iter = 0,
                  trace = tr3
                    @ (if ex_xdmf ex \<noteq> None then [Call_define_xdmf_files] else [])
                    @ (if ex_derived_quantities ex \<noteq> None
                       then [Call_header_derived_quantities] else []) \<rparr>))))"

subsection \<open>The stationary branch (lines 251-271)\<close>

text \<open>
  One call of \<open>solve_once\<close>, one of \<open>run_post_processing\<close>. Here \<open>dt\<close> is the integer 0,
  which nothing can change in place.
\<close>

definition solve_steady :: "'f env \<Rightarrow> 'f sim_state \<Rightarrow> 'f result" where
  "solve_steady env st =
    (let st1 = emit Call_solve_once st
     in case solve_once env st1 of
          Inl e \<Rightarrow> raise e st1
        | Inr u_new \<Rightarrow>
            (let st2 = st1\<lparr>st_u := u_new\<rparr>;
                 st3 = emit (Call_run_post_processing (st_t st2) (append_flag st2)) st2
             in case run_post_processing env st3 of
                  Inl e \<Rightarrow> raise e st3
                | Inr (dq, dt_new) \<Rightarrow> Inr (st3\<lparr>derived_quantities_global := dq\<rparr>)))"

subsection \<open>The whole of \<open>run\<close>\<close>

text \<open>Lines 55-271: from \<open>set_log_level\<close> to the end of the loop or of the stationary solve.\<close>

definition after_export :: "'f env \<Rightarrow> parameters \<Rightarrow> int \<Rightarrow> event list \<Rightarrow> 'f result option" where
  "after_export env p log_level tr0 =
    (let tr1 = tr0 @ [Call_set_log_level log_level]
     in case check_transient (solving_parameters p) of
          Inl e \<Rightarrow> Some (Inl (e, tr1))
        | Inr transient \<Rightarrow>
            if transient then
              (case sp_final_time (solving_parameters p) of
                 None \<Rightarrow> Some (Inl (KeyError ''final_time'', tr1))
               | Some final_time \<Rightarrow>
                   (case sp_initial_stepsize (solving_parameters p) of
                      None \<Rightarrow> Some (Inl (KeyError ''initial_stepsize'', tr1))
                    | Some initial_stepsize \<Rightarrow>
                        (case build_problem env p True initial_stepsize tr1 of
                           Inl x \<Rightarrow> Some (Inl x)
                         | Inr st0 \<Rightarrow> time_loop env p final_time st0)))
            else
              (case build_problem env p False 0 tr1 of
                 Inl x \<Rightarrow> Some (Inl x)
               | Inr st0 \<Rightarrow> Some (solve_steady env st0)))"

text \<open>Lines 48-271.\<close>

definition simulate :: "'f env \<Rightarrow> parameters \<Rightarrow> int \<Rightarrow> 'f result option" where
  "simulate env p log_level =
    (case export_stage env p of
       Inl x \<Rightarrow> Some (Inl x)
     | Inr tr0 \<Rightarrow> after_export env p log_level tr0)"

text \<open>
  Lines 273-297: the returned dictionary (the mesh handle is left out) and the trace of the
  whole run.
\<close>

record run_output =
  out_error :: "real option"
  out_parameters :: parameters
  out_derived_quantities :: "dq_row list option"

type_synonym run_result = "((error \<times> event list) + (run_output \<times> event list)) option"

definition make_output ::
  "'f env \<Rightarrow> parameters \<Rightarrow> 'f sim_state \<Rightarrow> (error \<times> event list) + (run_output \<times> event list)" where
  "make_output env p st =
    (case exports p of
       None \<Rightarrow> Inl (KeyError ''exports'', trace st)
     | Some ex \<Rightarrow>
         Inr (\<lparr> out_error = (if ex_error ex \<noteq> None
                              then Some (compute_error env st) else None),
                 out_parameters = p,
                 out_derived_quantities =
                   (if ex_derived_quantities ex \<noteq> None
                    then Some (derived_quantities_global st) else None) \<rparr>,
              trace st
                @ (if ex_error ex \<noteq> None then [Call_compute_error (st_t st)] else [])
                @ (if ex_derived_quantities ex \<noteq> None then [Call_write_to_csv] else [])))"

definition return_output :: "'f env \<Rightarrow> parameters \<Rightarrow> 'f result option \<Rightarrow> run_result" where
  "return_output env p r =
    (case r of
       None \<Rightarrow> None
     | Some (Inl x) \<Rightarrow> Some (Inl x)
     | Some (Inr st) \<Rightarrow> Some (make_output env p st))"

definition run :: "'f env \<Rightarrow> parameters \<Rightarrow> int \<Rightarrow> run_result" where
  "run env p log_level = return_output env p (simulate env p log_level)"

subsection \<open>A concrete run\<close>

text \<open>
  Collaborators over fields that are natural numbers, and a transient configuration with
  three traps, two of them extrinsic. The theorems below are evaluated on them.
\<close>

definition example_env :: "nat env" where
  "example_env =
    \<lparr> export_parameters = (\<lambda>p. None),
      Function_V = 0,
      Function_W = 0,
      interpolate_T_expr = (\<lambda>tm. 300),
      interpolate_T_ini = 300,
      solve_FT_stationary = (\<lambda>T0 T_n0. Inr 350),
      create_properties =
        \<lparr> D_T = Ref_other, thermal_cond_T = Some Ref_other, cp_T = Some Ref_other,
          rho_T = Some Ref_other, H_T = None,
          S_T = Some Ref_other \<rparr>,
      initialise_solutions = 0,
      initialise_extrinsic_traps = (\<lambda>n. replicate n 0),
      formulation_extrinsic_traps = (\<lambda>ds. length (filter is_extrinsic ds)),
      expressions_bcs_T = [\<lparr> expr_t = 0, bci_t = None \<rparr>],
      expressions_FT = [],
      expressions_F = [\<lparr> expr_t = 0, bci_t = None \<rparr>],
      expressions_BC = [\<lparr> expr_t = 0, bci_t = Some 0 \<rparr>],
      expressions_fluxes = [],
      expressions_extrinsic = [\<lparr> expr_t = 0, bci_t = None \<rparr>],
      header_derived_quantities = [''t(s)''],
      solve_FT_transient = (\<lambda>a r st. Inr (Suc (st_T_n st))),
      solve_it = (\<lambda>st. Inr (Suc (st_u_n st), st_dt st)),
      solve_once = (\<lambda>st. Inr 7),
      solve_extrinsic = (\<lambda>j bcs st. Inr (10 + j + st_u st)),
      run_post_processing = (\<lambda>st. Inr (derived_quantities_global st @ [[''row'']], st_dt st)),
      compute_error = (\<lambda>st. 0) \<rparr>"

definition example_parameters :: parameters where
  "example_parameters =
    \<lparr> exports = Some \<lparr> ex_parameters = Some ''out/parameters'', ex_xdmf = None,
                       ex_derived_quantities = None, ex_error = None \<rparr>,
      solving_parameters =
        \<lparr> sp_type = Some ''solve_transient'', sp_final_time = Some 1,
          sp_initial_stepsize = Some (3 / 10), sp_traps_element_type = None \<rparr>,
      mesh_parameters = Some ''mesh'',
      temperature = \<lparr> temp_type = ''solve_transient'' \<rparr>,
      materials = Some ''materials'',
      traps = [\<lparr> trap_type = None \<rparr>, \<lparr> trap_type = Some ''extrinsic'' \<rparr>,
               \<lparr> trap_type = Some ''extrinsic'' \<rparr>] \<rparr>"

definition with_type :: "string option \<Rightarrow> parameters \<Rightarrow> parameters" where
  "with_type ty p = p\<lparr>solving_parameters := (solving_parameters p)\<lparr>sp_type := ty\<rparr>\<rparr>"


section \<open>Vocabulary of the properties\<close>

text \<open>
  The events one loop iteration appends to the trace when nothing raises, written out from
  lines 186-250: the refresh of the properties, the part before the first solve, the heat
  solve, and the whole iteration.
\<close>

definition refresh_events :: "properties \<Rightarrow> real \<Rightarrow> event list" where
  "refresh_events pr tm =
     [Rebind Prop_D]
     @ (if H_T pr \<noteq> None then [Rebind Prop_H] else [])
     @ (if thermal_cond_T pr \<noteq> None then [Rebind Prop_thermal_cond] else [])
     @ (if S_T pr \<noteq> None then [Rebind Prop_S, Update_bci tm] else [])"

definition begin_events :: "parameters \<Rightarrow> properties \<Rightarrow> real \<Rightarrow> event list" where
  "begin_events p pr tm =
     [Advance_time tm, Call_update_expressions tm]
     @ (if temp_type (temperature p) = ''expression''
        then [Assign_T_n, Interpolate_T tm] else [])
     @ refresh_events pr tm"

definition heat_events :: "parameters \<Rightarrow> event list" where
  "heat_events p =
     (if temp_type (temperature p) = ''solve_transient''
      then [Solve_heat heat_abs_tol heat_rel_tol, Assign_T_n] else [])"

definition step_events :: "parameters \<Rightarrow> 'f sim_state \<Rightarrow> event list" where
  "step_events p st =
     begin_events p (props st) (st_t st + st_dt st)
     @ heat_events p
     @ [Call_solve_it (st_t st + st_dt st)]
     @ map (\<lambda>j. Solve_extrinsic j []) [0 ..< extrinsic_formulations st]
     @ [Call_run_post_processing (st_t st + st_dt st) (append_flag st), Assign_u_n]
     @ map Assign_previous_trap [0 ..< length (previous_solutions_traps st)]"

text \<open>Kinds of events.\<close>

fun is_solve :: "event \<Rightarrow> bool" where
  "is_solve Solve_heat_stationary = True"
| "is_solve (Solve_heat a r) = True"
| "is_solve (Call_solve_it tm) = True"
| "is_solve (Solve_extrinsic j bcs) = True"
| "is_solve Call_solve_once = True"
| "is_solve e = False"

fun is_commit :: "event \<Rightarrow> bool" where
  "is_commit Assign_u_n = True"
| "is_commit (Assign_previous_trap j) = True"
| "is_commit e = False"

fun is_post_processing :: "event \<Rightarrow> bool" where
  "is_post_processing (Call_run_post_processing tm a) = True"
| "is_post_processing e = False"

text \<open>Every registered expression carries the current time.\<close>

definition synchronised :: "'f sim_state \<Rightarrow> bool" where
  "synchronised st \<longleftrightarrow> list_all (\<lambda>e. expr_t e = st_t st) (expressions st)"

text \<open>
  The collaborators of a run with a fixed step size: no solver and no post-processing
  raises, and none changes \<open>dt\<close>.
\<close>

definition collaborators_steady :: "'f env \<Rightarrow> bool" where
  "collaborators_steady env \<longleftrightarrow>
     (\<forall>st. \<exists>T_new. solve_FT_transient env heat_abs_tol heat_rel_tol st = Inr T_new)
     \<and> (\<forall>st. \<exists>u_new. solve_it env st = Inr (u_new, st_dt st))
     \<and> (\<forall>j st. \<exists>f. solve_extrinsic env j [] st = Inr f)
     \<and> (\<forall>st. \<exists>dq. run_post_processing env st = Inr (dq, st_dt st))"

text \<open>
  No index of the two trap loops is out of range: there are at most as many formulations
  and previous solutions as extrinsic trap fields.
\<close>

definition traps_consistent :: "'f sim_state \<Rightarrow> bool" where
  "traps_consistent st \<longleftrightarrow>
     extrinsic_formulations st \<le> length (extrinsic_traps st)
     \<and> length (previous_solutions_traps st) \<le> length (extrinsic_traps st)"

text \<open>The states at the head of the time loop of a transient run.\<close>

inductive loop_state :: "'f env \<Rightarrow> parameters \<Rightarrow> 'f sim_state \<Rightarrow> bool" for env p where
  start: "build_problem env p True dt0 tr = Inr st \<Longrightarrow> loop_state env p st"
| step: "loop_state env p st \<Longrightarrow> time_step env p st = Inr st' \<Longrightarrow> loop_state env p st'"

text \<open>The state of the concrete run at the head of its time loop.\<close>

definition example_state :: "nat sim_state" where
  "example_state =
     projr (build_problem example_env example_parameters True (3 / 10)
              [Call_export_parameters, Call_set_log_level 40])"

text \<open>Variations of the concrete run.\<close>

definition with_final_time :: "real option \<Rightarrow> parameters \<Rightarrow> parameters" where
  "with_final_time ft p = p\<lparr>solving_parameters := (solving_parameters p)\<lparr>sp_final_time := ft\<rparr>\<rparr>"

definition example_env_export_raises :: "error \<Rightarrow> nat env" where
  "example_env_export_raises e = example_env\<lparr>export_parameters := (\<lambda>p. Some e)\<rparr>"

text \<open>More kinds of events, and the trace of a finished run.\<close>

fun is_transport_solve :: "event \<Rightarrow> bool" where
  "is_transport_solve (Call_solve_it tm) = True"
| "is_transport_solve Call_solve_once = True"
| "is_transport_solve e = False"

fun result_trace :: "(error \<times> event list) + ('a \<times> event list) \<Rightarrow> event list" where
  "result_trace (Inl (e, tr)) = tr"
| "result_trace (Inr (out, tr)) = tr"

definition is_setup_event :: "event \<Rightarrow> bool" where
  "is_setup_event e \<longleftrightarrow>
     \<not> is_commit e \<and> \<not> is_post_processing e \<and> \<not> is_transport_solve e"

text \<open>
  The state of the concrete run after its first iteration; trap solves; the trace of a
  result; the events of one iteration; and "an occurrence of \<open>b\<close> follows the first
  occurrence of \<open>a\<close>".
\<close>

definition example_next_state :: "nat sim_state" where
  "example_next_state =
    \<lparr> st_t = 3 / 10, st_dt = 3 / 10, st_T = 301, st_T_n = 301, st_T_expr_t = 0,
      st_u = 1, st_u_n = 1,
      extrinsic_traps = [11, 12], previous_solutions_traps = [11, 12],
      extrinsic_formulations = 2,
      expressions = [\<lparr> expr_t = 3 / 10, bci_t = None \<rparr>, \<lparr> expr_t = 3 / 10, bci_t = None \<rparr>,
                     \<lparr> expr_t = 3 / 10, bci_t = Some (3 / 10) \<rparr>,
                     \<lparr> expr_t = 3 / 10, bci_t = None \<rparr>],
      props = \<lparr> D_T = Ref_T, thermal_cond_T = Some Ref_T, cp_T = Some Ref_other,
                rho_T = Some Ref_other, H_T = None, S_T = Some Ref_T \<rparr>,
      append_flag = True, derived_quantities_global = [[''row'']], n_iter = 1,
      trace = [Call_export_parameters, Call_set_log_level 40, Call_create_mesh,
               Call_subdomains, Call_create_function_space 3 ''CG'', Interpolate_T_ini,
               Call_define_dirichlet_bcs_T, Call_define_variational_problem_heat_transfers,
               Call_create_properties, Call_initialise_solutions,
               Call_initialise_extrinsic_traps 2, Call_formulation,
               Call_apply_boundary_conditions, Call_apply_fluxes,
               Call_formulation_extrinsic_traps,
               Advance_time (3 / 10), Call_update_expressions (3 / 10),
               Rebind Prop_D, Rebind Prop_thermal_cond, Rebind Prop_S, Update_bci (3 / 10),
               Solve_heat (1 / 1000) (1 / 10000000000), Assign_T_n,
               Call_solve_it (3 / 10), Solve_extrinsic 0 [], Solve_extrinsic 1 [],
               Call_run_post_processing (3 / 10) False,
               Assign_u_n, Assign_previous_trap 0, Assign_previous_trap 1] \<rparr>"

fun is_trap_solve :: "event \<Rightarrow> bool" where
  "is_trap_solve (Solve_extrinsic j bcs) = True"
| "is_trap_solve e = False"

fun outcome_trace :: "'f result \<Rightarrow> event list" where
  "outcome_trace (Inl (e, tr)) = tr"
| "outcome_trace (Inr st) = trace st"

definition step_trace :: "'f env \<Rightarrow> parameters \<Rightarrow> 'f sim_state \<Rightarrow> event list" where
  "step_trace env p st = drop (length (trace st)) (outcome_trace (time_step env p st))"

definition happens_before :: "event \<Rightarrow> event \<Rightarrow> event list \<Rightarrow> bool" where
  "happens_before a b tr \<longleftrightarrow> a \<noteq> b \<and> b \<in> set (dropWhile (\<lambda>e. e \<noteq> a) tr)"

text \<open>
  Modelled from the spec: the function that assembles the reported fields (the
  \<open>make_output\<close> that test_export.py calls) is not in generic_simulation.py. By the
  glossary, with chemical-potential scaling the physical solute concentration is the
  transported variable times \<open>S\<close>; by section 8, retention is the sum of the solute
  concentration and of all trap densities at every point. Fields are functions of the
  point, with exact real values.
\<close>

definition reported_solute :: "real option \<Rightarrow> ('x \<Rightarrow> real) \<Rightarrow> 'x \<Rightarrow> real" where
  "reported_solute S u0 x = (case S of None \<Rightarrow> u0 x | Some s \<Rightarrow> u0 x * s)"

definition retention :: "('x \<Rightarrow> real) \<Rightarrow> ('x \<Rightarrow> real) list \<Rightarrow> 'x \<Rightarrow> real" where
  "retention solute trap_densities x = solute x + sum_list (map (\<lambda>d. d x) trap_densities)"

text \<open>A transport solver that fails, for the stationary run.\<close>

definition example_env_solver_raises :: "error \<Rightarrow> nat env" where
  "example_env_solver_raises e = example_env\<lparr>solve_once := (\<lambda>st. Inl e)\<rparr>"

section \<open>The phases of one iteration\<close>

lemma and_then_Inr_iff:
  "and_then r f = Inr st' \<longleftrightarrow> (\<exists>st1. r = Inr st1 \<and> f st1 = Inr st')"
  by (cases r) (simp_all add: and_then_def)

lemma and_then_Inr [simp]: "and_then (Inr st) f = f st"
  by (simp add: and_then_def)

lemma and_then_Inl [simp]: "and_then (Inl x) f = Inl x"
  by (simp add: and_then_def)

lemma solve_extrinsic_traps_frame:
  "solve_extrinsic_traps env js st = Inr st' \<Longrightarrow>
     st' = st\<lparr>extrinsic_traps := extrinsic_traps st',
               trace := trace st @ map (\<lambda>j. Solve_extrinsic j []) js\<rparr>
     \<and> length (extrinsic_traps st') = length (extrinsic_traps st)"
proof (induction js arbitrary: st)
  case Nil
  then show ?case by simp
next
  case (Cons j js)
  from Cons.prems obtain f where
    j: "j < length (extrinsic_traps st)" and
    f: "solve_extrinsic env j [] (emit (Solve_extrinsic j []) st) = Inr f" and
    rest: "solve_extrinsic_traps env js
             ((emit (Solve_extrinsic j []) st)
                \<lparr>extrinsic_traps := (extrinsic_traps (emit (Solve_extrinsic j []) st))[j := f]\<rparr>) = Inr st'"
    by (auto simp: Let_def raise_def split: if_splits sum.splits)
  from Cons.IH [OF rest] show ?case
    by (simp add: emit_def)
qed

lemma assign_previous_traps_frame:
  "assign_previous_traps js st = Inr st' \<Longrightarrow>
     st' = st\<lparr>previous_solutions_traps := previous_solutions_traps st',
               trace := trace st @ map Assign_previous_trap js\<rparr>
     \<and> length (previous_solutions_traps st') = length (previous_solutions_traps st)"
proof (induction js arbitrary: st)
  case Nil
  then show ?case by simp
next
  case (Cons j js)
  from Cons.prems have
    j: "j < length (extrinsic_traps st)" and
    rest: "assign_previous_traps js
             (emit (Assign_previous_trap j)
                (st\<lparr>previous_solutions_traps :=
                      (previous_solutions_traps st)[j := extrinsic_traps st ! j]\<rparr>)) = Inr st'"
    by (auto simp: raise_def split: if_splits)
  from Cons.IH [OF rest] show ?case
    by (simp add: emit_def)
qed

lemmas begin_step_defs =
  begin_step_def refresh_properties_def rebind_D_def rebind_H_def rebind_thermal_cond_def
  rebind_S_def update_T_expr_def advance_time_def emit_def Let_def

lemma begin_step_clock:
  "st_t (begin_step env p st) = st_t st + st_dt st"
  "st_dt (begin_step env p st) = st_dt st"
  "n_iter (begin_step env p st) = n_iter st"
  by (simp_all add: begin_step_defs)

lemma begin_step_traps:
  "extrinsic_traps (begin_step env p st) = extrinsic_traps st"
  "previous_solutions_traps (begin_step env p st) = previous_solutions_traps st"
  "extrinsic_formulations (begin_step env p st) = extrinsic_formulations st"
  "st_u (begin_step env p st) = st_u st"
  "st_u_n (begin_step env p st) = st_u_n st"
  by (simp_all add: begin_step_defs)

lemma begin_step_trace:
  "trace (begin_step env p st) =
     trace st @ begin_events p (props st) (st_t st + st_dt st)"
  by (simp add: begin_step_defs begin_events_def refresh_events_def)

lemma solve_extrinsic_traps_total:
  assumes "\<forall>j st. \<exists>f. solve_extrinsic env j [] st = Inr f"
    and "\<forall>j \<in> set js. j < length (extrinsic_traps st)"
  shows "\<exists>st'. solve_extrinsic_traps env js st = Inr st'"
  using assms(2)
proof (induction js arbitrary: st)
  case Nil
  then show ?case by simp
next
  case (Cons j js)
  obtain f where f: "solve_extrinsic env j [] (emit (Solve_extrinsic j []) st) = Inr f"
    using assms(1) by blast
  let ?st1 = "(emit (Solve_extrinsic j []) st)
                \<lparr>extrinsic_traps := (extrinsic_traps (emit (Solve_extrinsic j []) st))[j := f]\<rparr>"
  have "\<forall>k \<in> set js. k < length (extrinsic_traps ?st1)"
    using Cons.prems by (simp add: emit_def)
  from Cons.IH [OF this] obtain st' where "solve_extrinsic_traps env js ?st1 = Inr st'" ..
  with f Cons.prems show ?case by (simp add: Let_def)
qed

lemma assign_previous_traps_total:
  assumes "\<forall>j \<in> set js. j < length (extrinsic_traps st)"
  shows "\<exists>st'. assign_previous_traps js st = Inr st'"
  using assms
proof (induction js arbitrary: st)
  case Nil
  then show ?case by simp
next
  case (Cons j js)
  then show ?case by (simp add: emit_def)
qed

lemma assign_previous_traps_nth:
  assumes "assign_previous_traps js st = Inr st'"
    and "k < length (previous_solutions_traps st)"
  shows "previous_solutions_traps st' ! k =
           (if k \<in> set js then extrinsic_traps st ! k else previous_solutions_traps st ! k)"
  using assms
proof (induction js arbitrary: st)
  case Nil
  then show ?case by simp
next
  case (Cons j js)
  let ?st1 = "emit (Assign_previous_trap j)
                (st\<lparr>previous_solutions_traps :=
                      (previous_solutions_traps st)[j := extrinsic_traps st ! j]\<rparr>)"
  from Cons.prems(1) have rest: "assign_previous_traps js ?st1 = Inr st'"
    by (auto simp: raise_def split: if_splits)
  have len: "k < length (previous_solutions_traps ?st1)"
    using Cons.prems(2) by (simp add: emit_def)
  from Cons.IH [OF rest len] Cons.prems(2) show ?case
    by (auto simp: emit_def nth_list_update)
qed

lemma assign_previous_traps_bound:
  assumes "assign_previous_traps js st = Inr st'" and "j \<in> set js"
  shows "j < length (extrinsic_traps st)"
  using assms
proof (induction js arbitrary: st)
  case Nil
  then show ?case by simp
next
  case (Cons a js)
  let ?st1 = "emit (Assign_previous_trap a)
                (st\<lparr>previous_solutions_traps :=
                      (previous_solutions_traps st)[a := extrinsic_traps st ! a]\<rparr>)"
  from Cons.prems(1) have a: "a < length (extrinsic_traps st)"
    and rest: "assign_previous_traps js ?st1 = Inr st'"
    by (auto simp: raise_def split: if_splits)
  show ?case
  proof (cases "j = a")
    case True
    with a show ?thesis by simp
  next
    case False
    with Cons.prems(2) have "j \<in> set js" by simp
    from Cons.IH [OF rest this] show ?thesis by (simp add: emit_def)
  qed
qed

lemma update_previous_solutions_Inr:
  assumes "update_previous_solutions st = Inr st'"
  shows "st' = st\<lparr>st_u_n := st_u st,
                   previous_solutions_traps := previous_solutions_traps st',
                   trace := trace st @ Assign_u_n
                     # map Assign_previous_trap [0 ..< length (previous_solutions_traps st)]\<rparr>"
    and "previous_solutions_traps st' =
           take (length (previous_solutions_traps st)) (extrinsic_traps st)"
    and "length (previous_solutions_traps st) \<le> length (extrinsic_traps st)"
proof -
  let ?st1 = "emit Assign_u_n (st\<lparr>st_u_n := st_u st\<rparr>)"
  let ?n = "length (previous_solutions_traps st)"
  from assms have run: "assign_previous_traps [0 ..< ?n] ?st1 = Inr st'"
    by (simp add: update_previous_solutions_def Let_def emit_def)
  from assign_previous_traps_frame [OF run]
  show "st' = st\<lparr>st_u_n := st_u st,
                   previous_solutions_traps := previous_solutions_traps st',
                   trace := trace st @ Assign_u_n # map Assign_previous_trap [0 ..< ?n]\<rparr>"
    by (simp add: emit_def)
  have len': "length (previous_solutions_traps st') = ?n"
    using assign_previous_traps_frame [OF run] by (simp add: emit_def)
  show bound: "?n \<le> length (extrinsic_traps st)"
  proof (rule ccontr)
    assume "\<not> ?n \<le> length (extrinsic_traps st)"
    then have lt: "length (extrinsic_traps st) < ?n" by simp
    from assign_previous_traps_bound [OF run, of "length (extrinsic_traps st)"] lt
    show False by (simp add: emit_def)
  qed
  show "previous_solutions_traps st' = take ?n (extrinsic_traps st)"
  proof (rule nth_equalityI)
    show "length (previous_solutions_traps st') = length (take ?n (extrinsic_traps st))"
      using len' bound by simp
  next
    fix k assume "k < length (previous_solutions_traps st')"
    then have k: "k < ?n" using len' by simp
    then have "k < length (previous_solutions_traps ?st1)" by (simp add: emit_def)
    from assign_previous_traps_nth [OF run this] k
    show "previous_solutions_traps st' ! k = take ?n (extrinsic_traps st) ! k"
      by (simp add: emit_def)
  qed
qed

lemma solve_heat_transfers_InrE:
  assumes "solve_heat_transfers env p st = Inr st'"
  obtains T_new T_n_new where
    "st' = st\<lparr>st_T := T_new, st_T_n := T_n_new, trace := trace st @ heat_events p\<rparr>"
    and "temp_type (temperature p) = ''solve_transient'' \<Longrightarrow>
           T_n_new = T_new \<and>
           solve_FT_transient env heat_abs_tol heat_rel_tol
             (emit (Solve_heat heat_abs_tol heat_rel_tol) st) = Inr T_new"
    and "temp_type (temperature p) \<noteq> ''solve_transient'' \<Longrightarrow>
           T_new = st_T st \<and> T_n_new = st_T_n st"
proof (cases "temp_type (temperature p) = ''solve_transient''")
  case True
  let ?st1 = "emit (Solve_heat heat_abs_tol heat_rel_tol) st"
  from assms True obtain T_new where
    sol: "solve_FT_transient env heat_abs_tol heat_rel_tol ?st1 = Inr T_new"
    by (cases "solve_FT_transient env heat_abs_tol heat_rel_tol ?st1")
       (simp_all add: solve_heat_transfers_def Let_def raise_def)
  with assms True have
    eq: "st' = st\<lparr>st_T := T_new, st_T_n := T_new, trace := trace st @ heat_events p\<rparr>"
    by (simp add: solve_heat_transfers_def Let_def emit_def heat_events_def)
  show ?thesis
  proof (rule that)
    show "st' = st\<lparr>st_T := T_new, st_T_n := T_new, trace := trace st @ heat_events p\<rparr>"
      by (rule eq)
    show "temp_type (temperature p) = ''solve_transient'' \<Longrightarrow>
           T_new = T_new \<and>
           solve_FT_transient env heat_abs_tol heat_rel_tol
             (emit (Solve_heat heat_abs_tol heat_rel_tol) st) = Inr T_new"
      using sol by simp
    show "temp_type (temperature p) \<noteq> ''solve_transient'' \<Longrightarrow>
            T_new = st_T st \<and> T_new = st_T_n st"
      using True by simp
  qed
next
  case False
  with assms have same: "st' = st" by (simp add: solve_heat_transfers_def)
  show ?thesis
  proof (rule that)
    show "st' = st\<lparr>st_T := st_T st, st_T_n := st_T_n st,
                      trace := trace st @ heat_events p\<rparr>"
      using False by (simp add: same heat_events_def)
    show "temp_type (temperature p) = ''solve_transient'' \<Longrightarrow>
           st_T_n st = st_T st \<and>
           solve_FT_transient env heat_abs_tol heat_rel_tol
             (emit (Solve_heat heat_abs_tol heat_rel_tol) st) = Inr (st_T st)"
      using False by simp
    show "temp_type (temperature p) \<noteq> ''solve_transient'' \<Longrightarrow>
            st_T st = st_T st \<and> st_T_n st = st_T_n st"
      by simp
  qed
qed

lemma solve_main_problem_InrE:
  assumes "solve_main_problem env st = Inr st'"
  obtains u_new dt_new where
    "st' = st\<lparr>st_u := u_new, st_dt := dt_new,
               trace := trace st @ [Call_solve_it (st_t st)]\<rparr>"
    and "solve_it env (emit (Call_solve_it (st_t st)) st) = Inr (u_new, dt_new)"
  using assms
  by (auto simp: solve_main_problem_def Let_def raise_def emit_def
           split: sum.splits prod.splits)

lemma post_processing_InrE:
  assumes "post_processing env st = Inr st'"
  obtains dq dt_new where
    "st' = st\<lparr>derived_quantities_global := dq, st_dt := dt_new,
               trace := trace st @ [Call_run_post_processing (st_t st) (append_flag st)]\<rparr>"
    and "run_post_processing env
           (emit (Call_run_post_processing (st_t st) (append_flag st)) st) = Inr (dq, dt_new)"
  using assms
  by (auto simp: post_processing_def Let_def raise_def emit_def
           split: sum.splits prod.splits)

lemma solve_extrinsic_traps_InrE:
  assumes "solve_extrinsic_traps env js st = Inr st'"
  obtains traps_new where
    "st' = st\<lparr>extrinsic_traps := traps_new,
               trace := trace st @ map (\<lambda>j. Solve_extrinsic j []) js\<rparr>"
    and "length traps_new = length (extrinsic_traps st)"
  using solve_extrinsic_traps_frame [OF assms] by blast

lemma update_previous_solutions_InrE:
  assumes "update_previous_solutions st = Inr st'"
  obtains
    "st' = st\<lparr>st_u_n := st_u st,
               previous_solutions_traps :=
                 take (length (previous_solutions_traps st)) (extrinsic_traps st),
               trace := trace st @ Assign_u_n
                 # map Assign_previous_trap [0 ..< length (previous_solutions_traps st)]\<rparr>"
    and "length (previous_solutions_traps st) \<le> length (extrinsic_traps st)"
  using update_previous_solutions_Inr [OF assms] by metis

lemma solve_step_InrE:
  assumes "solve_step env p st = Inr st3"
  obtains T_new T_n_new u_new dt_new traps_new where
    "st3 = st\<lparr>st_T := T_new, st_T_n := T_n_new, st_u := u_new, st_dt := dt_new,
               extrinsic_traps := traps_new,
               trace := trace st @ heat_events p @ [Call_solve_it (st_t st)]
                 @ map (\<lambda>j. Solve_extrinsic j []) [0 ..< extrinsic_formulations st]\<rparr>"
    and "length traps_new = length (extrinsic_traps st)"
    and "temp_type (temperature p) = ''solve_transient'' \<Longrightarrow>
           T_n_new = T_new \<and>
           solve_FT_transient env heat_abs_tol heat_rel_tol
             (emit (Solve_heat heat_abs_tol heat_rel_tol) st) = Inr T_new"
    and "temp_type (temperature p) \<noteq> ''solve_transient'' \<Longrightarrow>
           T_new = st_T st \<and> T_n_new = st_T_n st"
    and "solve_it env
           (emit (Call_solve_it (st_t st))
              (st\<lparr>st_T := T_new, st_T_n := T_n_new, trace := trace st @ heat_events p\<rparr>))
         = Inr (u_new, dt_new)"
proof -
  from assms obtain st1 st2 where
    h: "solve_heat_transfers env p st = Inr st1" and
    m: "solve_main_problem env st1 = Inr st2" and
    x: "solve_extrinsic_traps env [0 ..< extrinsic_formulations st2] st2 = Inr st3"
    by (auto simp: solve_step_def and_then_Inr_iff)
  from h obtain T_new T_n_new where
    e1: "st1 = st\<lparr>st_T := T_new, st_T_n := T_n_new, trace := trace st @ heat_events p\<rparr>"
    and t1: "temp_type (temperature p) = ''solve_transient'' \<Longrightarrow>
           T_n_new = T_new \<and>
           solve_FT_transient env heat_abs_tol heat_rel_tol
             (emit (Solve_heat heat_abs_tol heat_rel_tol) st) = Inr T_new"
    and t2: "temp_type (temperature p) \<noteq> ''solve_transient'' \<Longrightarrow>
           T_new = st_T st \<and> T_n_new = st_T_n st"
    by (rule solve_heat_transfers_InrE) blast
  from m obtain u_new dt_new where
    e2: "st2 = st1\<lparr>st_u := u_new, st_dt := dt_new,
                   trace := trace st1 @ [Call_solve_it (st_t st1)]\<rparr>"
    and s2: "solve_it env (emit (Call_solve_it (st_t st1)) st1) = Inr (u_new, dt_new)"
    by (rule solve_main_problem_InrE)
  from x obtain traps_new where
    e3: "st3 = st2\<lparr>extrinsic_traps := traps_new,
                   trace := trace st2 @ map (\<lambda>j. Solve_extrinsic j [])
                              [0 ..< extrinsic_formulations st2]\<rparr>"
    and l3: "length traps_new = length (extrinsic_traps st2)"
    by (rule solve_extrinsic_traps_InrE)
  show ?thesis
  proof (rule that)
    show "st3 = st\<lparr>st_T := T_new, st_T_n := T_n_new, st_u := u_new, st_dt := dt_new,
               extrinsic_traps := traps_new,
               trace := trace st @ heat_events p @ [Call_solve_it (st_t st)]
                 @ map (\<lambda>j. Solve_extrinsic j []) [0 ..< extrinsic_formulations st]\<rparr>"
      by (simp add: e3 e2 e1)
    show "length traps_new = length (extrinsic_traps st)"
      using l3 by (simp add: e2 e1)
    show "temp_type (temperature p) = ''solve_transient'' \<Longrightarrow>
           T_n_new = T_new \<and>
           solve_FT_transient env heat_abs_tol heat_rel_tol
             (emit (Solve_heat heat_abs_tol heat_rel_tol) st) = Inr T_new"
      by (rule t1)
    show "temp_type (temperature p) \<noteq> ''solve_transient'' \<Longrightarrow>
           T_new = st_T st \<and> T_n_new = st_T_n st"
      by (rule t2)
    show "solve_it env
           (emit (Call_solve_it (st_t st))
              (st\<lparr>st_T := T_new, st_T_n := T_n_new, trace := trace st @ heat_events p\<rparr>))
         = Inr (u_new, dt_new)"
      using s2 by (simp add: e1)
  qed
qed

lemma finish_step_InrE:
  assumes "finish_step env st = Inr st'"
  obtains dq dt_new where
    "st' = st\<lparr>derived_quantities_global := dq, st_dt := dt_new, append_flag := True,
               st_u_n := st_u st,
               previous_solutions_traps :=
                 take (length (previous_solutions_traps st)) (extrinsic_traps st),
               n_iter := Suc (n_iter st),
               trace := trace st
                 @ [Call_run_post_processing (st_t st) (append_flag st), Assign_u_n]
                 @ map Assign_previous_trap [0 ..< length (previous_solutions_traps st)]\<rparr>"
    and "length (previous_solutions_traps st) \<le> length (extrinsic_traps st)"
    and "run_post_processing env
           (emit (Call_run_post_processing (st_t st) (append_flag st)) st) = Inr (dq, dt_new)"
proof -
  from assms obtain st1 st2 where
    pp: "post_processing env st = Inr st1" and
    up: "update_previous_solutions (st1\<lparr>append_flag := True\<rparr>) = Inr st2" and
    fin: "st' = st2\<lparr>n_iter := Suc (n_iter st2)\<rparr>"
    by (auto simp: finish_step_def and_then_Inr_iff set_append_def)
  from pp obtain dq dt_new where
    e1: "st1 = st\<lparr>derived_quantities_global := dq, st_dt := dt_new,
               trace := trace st @ [Call_run_post_processing (st_t st) (append_flag st)]\<rparr>"
    and r1: "run_post_processing env
           (emit (Call_run_post_processing (st_t st) (append_flag st)) st) = Inr (dq, dt_new)"
    by (rule post_processing_InrE)
  let ?s = "st1\<lparr>append_flag := True\<rparr>"
  from up have
    e2: "st2 = ?s\<lparr>st_u_n := st_u ?s,
               previous_solutions_traps :=
                 take (length (previous_solutions_traps ?s)) (extrinsic_traps ?s),
               trace := trace ?s @ Assign_u_n
                 # map Assign_previous_trap [0 ..< length (previous_solutions_traps ?s)]\<rparr>"
    and l2: "length (previous_solutions_traps ?s) \<le> length (extrinsic_traps ?s)"
    by (rule update_previous_solutions_InrE, simp)+
  show ?thesis
  proof (rule that)
    show "st' = st\<lparr>derived_quantities_global := dq, st_dt := dt_new, append_flag := True,
               st_u_n := st_u st,
               previous_solutions_traps :=
                 take (length (previous_solutions_traps st)) (extrinsic_traps st),
               n_iter := Suc (n_iter st),
               trace := trace st
                 @ [Call_run_post_processing (st_t st) (append_flag st), Assign_u_n]
                 @ map Assign_previous_trap [0 ..< length (previous_solutions_traps st)]\<rparr>"
      by (simp add: fin e2 e1)
    show "length (previous_solutions_traps st) \<le> length (extrinsic_traps st)"
      using l2 by (simp add: e1)
    show "run_post_processing env
           (emit (Call_run_post_processing (st_t st) (append_flag st)) st) = Inr (dq, dt_new)"
      by (rule r1)
  qed
qed

lemma time_step_InrE:
  assumes "time_step env p st = Inr st'"
  obtains st3 where
    "solve_step env p (begin_step env p st) = Inr st3"
    and "finish_step env st3 = Inr st'"
  using assms by (auto simp: time_step_def and_then_Inr_iff)

lemma begin_step_rest:
  "append_flag (begin_step env p st) = append_flag st"
  "derived_quantities_global (begin_step env p st) = derived_quantities_global st"
  by (simp_all add: begin_step_defs)

lemma time_step_Inr_fields:
  assumes "time_step env p st = Inr st'"
  shows "trace st' = trace st @ step_events p st"
    and "st_t st' = st_t st + st_dt st"
    and "n_iter st' = Suc (n_iter st)"
    and "extrinsic_formulations st' = extrinsic_formulations st"
    and "length (extrinsic_traps st') = length (extrinsic_traps st)"
    and "length (previous_solutions_traps st') = length (previous_solutions_traps st)"
    and "length (previous_solutions_traps st) \<le> length (extrinsic_traps st)"
    and "st_u_n st' = st_u st'"
    and "previous_solutions_traps st' =
           take (length (previous_solutions_traps st)) (extrinsic_traps st')"
proof -
  from assms obtain st3 where
    s: "solve_step env p (begin_step env p st) = Inr st3" and
    f: "finish_step env st3 = Inr st'"
    by (rule time_step_InrE)
  let ?b = "begin_step env p st"
  from s obtain T_new T_n_new u_new dt_mid traps_new where
    e3: "st3 = ?b\<lparr>st_T := T_new, st_T_n := T_n_new, st_u := u_new, st_dt := dt_mid,
               extrinsic_traps := traps_new,
               trace := trace ?b @ heat_events p @ [Call_solve_it (st_t ?b)]
                 @ map (\<lambda>j. Solve_extrinsic j []) [0 ..< extrinsic_formulations ?b]\<rparr>"
    and l3: "length traps_new = length (extrinsic_traps ?b)"
    by (rule solve_step_InrE) blast
  from f obtain dq dt_new where
    e4: "st' = st3\<lparr>derived_quantities_global := dq, st_dt := dt_new, append_flag := True,
               st_u_n := st_u st3,
               previous_solutions_traps :=
                 take (length (previous_solutions_traps st3)) (extrinsic_traps st3),
               n_iter := Suc (n_iter st3),
               trace := trace st3
                 @ [Call_run_post_processing (st_t st3) (append_flag st3), Assign_u_n]
                 @ map Assign_previous_trap [0 ..< length (previous_solutions_traps st3)]\<rparr>"
    and l4: "length (previous_solutions_traps st3) \<le> length (extrinsic_traps st3)"
    by (rule finish_step_InrE) blast
  have b3: "st_t st3 = st_t st + st_dt st" "append_flag st3 = append_flag st"
    "previous_solutions_traps st3 = previous_solutions_traps st"
    "extrinsic_formulations st3 = extrinsic_formulations st"
    "n_iter st3 = n_iter st" "extrinsic_traps st3 = traps_new" "st_u st3 = u_new"
    "trace st3 = trace st @ begin_events p (props st) (st_t st + st_dt st)
       @ heat_events p @ [Call_solve_it (st_t st + st_dt st)]
       @ map (\<lambda>j. Solve_extrinsic j []) [0 ..< extrinsic_formulations st]"
    by (simp_all add: e3 begin_step_clock begin_step_traps begin_step_rest begin_step_trace)
  show "trace st' = trace st @ step_events p st"
    by (simp add: e4 b3 step_events_def)
  show "st_t st' = st_t st + st_dt st" by (simp add: e4 b3)
  show "n_iter st' = Suc (n_iter st)" by (simp add: e4 b3)
  show "extrinsic_formulations st' = extrinsic_formulations st" by (simp add: e4 b3)
  show "length (extrinsic_traps st') = length (extrinsic_traps st)"
    using l3 by (simp add: e4 b3 begin_step_traps)
  show le: "length (previous_solutions_traps st) \<le> length (extrinsic_traps st)"
    using l4 l3 by (simp add: b3 begin_step_traps)
  show "length (previous_solutions_traps st') = length (previous_solutions_traps st)"
    using l4 by (simp add: e4 b3)
  show "st_u_n st' = st_u st'" by (simp add: e4 b3)
  show "previous_solutions_traps st' =
           take (length (previous_solutions_traps st)) (extrinsic_traps st')"
    by (simp add: e4 b3)
qed

lemma time_step_steady:
  assumes c: "collaborators_steady env" and tc: "traps_consistent st"
  shows "\<exists>st'. time_step env p st = Inr st' \<and> st_dt st' = st_dt st \<and> traps_consistent st'"
proof -
  let ?b = "begin_step env p st"
  from c have
    heat: "\<And>s. \<exists>T_new. solve_FT_transient env heat_abs_tol heat_rel_tol s = Inr T_new" and
    main: "\<And>s. \<exists>u_new. solve_it env s = Inr (u_new, st_dt s)" and
    ext: "\<forall>j s. \<exists>f. solve_extrinsic env j [] s = Inr f" and
    post: "\<And>s. \<exists>dq. run_post_processing env s = Inr (dq, st_dt s)"
    by (simp_all add: collaborators_steady_def)
  obtain st1 where h: "solve_heat_transfers env p ?b = Inr st1"
  proof (cases "temp_type (temperature p) = ''solve_transient''")
    case True
    from heat [of "emit (Solve_heat heat_abs_tol heat_rel_tol) ?b"] obtain T_new where
      "solve_FT_transient env heat_abs_tol heat_rel_tol
         (emit (Solve_heat heat_abs_tol heat_rel_tol) ?b) = Inr T_new" ..
    with True that show ?thesis by (simp add: solve_heat_transfers_def Let_def)
  next
    case False
    with that show ?thesis by (simp add: solve_heat_transfers_def)
  qed
  from h obtain T_new T_n_new where
    e1: "st1 = ?b\<lparr>st_T := T_new, st_T_n := T_n_new, trace := trace ?b @ heat_events p\<rparr>"
    by (rule solve_heat_transfers_InrE) blast
  from main [of "emit (Call_solve_it (st_t st1)) st1"] obtain u_new where
    "solve_it env (emit (Call_solve_it (st_t st1)) st1) = Inr (u_new, st_dt st1)"
    by (auto simp: emit_def)
  then have m: "solve_main_problem env st1 =
      Inr ((emit (Call_solve_it (st_t st1)) st1)\<lparr>st_u := u_new, st_dt := st_dt st1\<rparr>)"
    by (simp add: solve_main_problem_def Let_def)
  define st2 where "st2 = (emit (Call_solve_it (st_t st1)) st1)\<lparr>st_u := u_new, st_dt := st_dt st1\<rparr>"
  have f2: "st_dt st2 = st_dt st" "extrinsic_formulations st2 = extrinsic_formulations st"
    "extrinsic_traps st2 = extrinsic_traps st"
    "previous_solutions_traps st2 = previous_solutions_traps st"
    by (simp_all add: st2_def emit_def e1 begin_step_clock begin_step_traps)
  have "\<forall>j \<in> set [0 ..< extrinsic_formulations st2]. j < length (extrinsic_traps st2)"
    using tc by (simp add: f2 traps_consistent_def)
  from solve_extrinsic_traps_total [OF ext this] obtain st3 where
    x: "solve_extrinsic_traps env [0 ..< extrinsic_formulations st2] st2 = Inr st3" ..
  from x obtain traps_new where
    e3: "st3 = st2\<lparr>extrinsic_traps := traps_new,
                   trace := trace st2 @ map (\<lambda>j. Solve_extrinsic j [])
                              [0 ..< extrinsic_formulations st2]\<rparr>"
    and l3: "length traps_new = length (extrinsic_traps st2)"
    by (rule solve_extrinsic_traps_InrE)
  have s: "solve_step env p ?b = Inr st3"
    using h m x by (simp add: solve_step_def st2_def)
  have f3: "st_dt st3 = st_dt st" "extrinsic_formulations st3 = extrinsic_formulations st"
    "length (extrinsic_traps st3) = length (extrinsic_traps st)"
    "previous_solutions_traps st3 = previous_solutions_traps st"
    using l3 by (simp_all add: e3 f2)
  let ?s3 = "emit (Call_run_post_processing (st_t st3) (append_flag st3)) st3"
  from post [of ?s3] obtain dq where
    "run_post_processing env ?s3 = Inr (dq, st_dt st3)"
    by (auto simp: emit_def)
  then have pp: "post_processing env st3 =
      Inr (?s3\<lparr>derived_quantities_global := dq, st_dt := st_dt st3\<rparr>)"
    by (simp add: post_processing_def Let_def)
  define st4 where
    "st4 = (?s3\<lparr>derived_quantities_global := dq, st_dt := st_dt st3\<rparr>)\<lparr>append_flag := True\<rparr>"
  have f4: "st_dt st4 = st_dt st" "extrinsic_formulations st4 = extrinsic_formulations st"
    "length (extrinsic_traps st4) = length (extrinsic_traps st)"
    "previous_solutions_traps st4 = previous_solutions_traps st"
    by (simp_all add: st4_def emit_def f3)
  let ?s4 = "emit Assign_u_n (st4\<lparr>st_u_n := st_u st4\<rparr>)"
  have "\<forall>j \<in> set [0 ..< length (previous_solutions_traps ?s4)].
          j < length (extrinsic_traps ?s4)"
    using tc by (simp add: emit_def f4 traps_consistent_def)
  from assign_previous_traps_total [OF this] obtain st5 where
    "assign_previous_traps [0 ..< length (previous_solutions_traps ?s4)] ?s4 = Inr st5" ..
  then have up: "update_previous_solutions st4 = Inr st5"
    by (simp add: update_previous_solutions_def Let_def)
  have fin: "finish_step env st3 = Inr (st5\<lparr>n_iter := Suc (n_iter st5)\<rparr>)"
    using pp up by (simp add: finish_step_def set_append_def st4_def)
  from up have
    e5: "st5 = st4\<lparr>st_u_n := st_u st4,
               previous_solutions_traps :=
                 take (length (previous_solutions_traps st4)) (extrinsic_traps st4),
               trace := trace st4 @ Assign_u_n
                 # map Assign_previous_trap [0 ..< length (previous_solutions_traps st4)]\<rparr>"
    by (rule update_previous_solutions_InrE)
  let ?st' = "st5\<lparr>n_iter := Suc (n_iter st5)\<rparr>"
  have ts: "time_step env p st = Inr ?st'"
    using s fin by (simp add: time_step_def)
  have "st_dt ?st' = st_dt st"
    by (simp add: e5 f4)
  moreover have "traps_consistent ?st'"
    using tc by (simp add: traps_consistent_def e5 f4)
  ultimately show ?thesis using ts by blast
qed

lemma time_loop_fixed_dt:
  assumes c: "collaborators_steady env" and d: "0 < d"
  shows "traps_consistent st \<Longrightarrow> st_dt st = d \<Longrightarrow>
           nat \<lceil>(final_time - st_t st) / d\<rceil> = m \<Longrightarrow>
           \<exists>st'. time_loop env p final_time st = Some (Inr st')
                 \<and> n_iter st' = n_iter st + m
                 \<and> st_t st' = st_t st + real m * d"
proof (induction m arbitrary: st)
  case 0
  then have "\<lceil>(final_time - st_t st) / d\<rceil> \<le> 0" by simp
  then have "(final_time - st_t st) / d \<le> 0" by (simp add: ceiling_le_iff)
  with d have "\<not> st_t st < final_time"
    by (simp add: divide_le_0_iff not_less)
  then show ?case by (subst time_loop.simps) simp
next
  case (Suc m)
  from Suc.prems(3) have pos: "0 < \<lceil>(final_time - st_t st) / d\<rceil>" by linarith
  then have "0 < (final_time - st_t st) / d" by (simp add: ceiling_less_iff less_ceiling_iff)
  with d have lt: "st_t st < final_time" by (simp add: zero_less_divide_iff)
  from time_step_steady [OF c Suc.prems(1), of p] obtain st1 where
    ts: "time_step env p st = Inr st1" and dt1: "st_dt st1 = st_dt st"
    and tc1: "traps_consistent st1" by blast
  have t1: "st_t st1 = st_t st + d" and n1: "n_iter st1 = Suc (n_iter st)"
    using time_step_Inr_fields(2,3) [OF ts] Suc.prems(2) by simp_all
  have "(final_time - st_t st1) / d = (final_time - st_t st) / d - 1"
    using d by (simp add: t1 field_simps)
  then have "nat \<lceil>(final_time - st_t st1) / d\<rceil> = m"
    using Suc.prems(3) by simp
  from Suc.IH [OF tc1 _ this] dt1 Suc.prems(2) obtain st' where
    "time_loop env p final_time st1 = Some (Inr st')"
    "n_iter st' = n_iter st1 + m" "st_t st' = st_t st1 + real m * d"
    by auto
  then have "time_loop env p final_time st = Some (Inr st')
      \<and> n_iter st' = n_iter st + Suc m \<and> st_t st' = st_t st + real (Suc m) * d"
    using lt ts by (subst time_loop.simps) (simp add: t1 n1 algebra_simps)
  then show ?case by blast
qed

text \<open>What \<open>build_problem\<close> leaves in the state.\<close>

lemma build_problem_Inr:
  assumes "build_problem env p transient dt0 tr = Inr st"
  shows "st_t st = 0" and "st_dt st = dt0" and "n_iter st = 0"
    and "st_u_n st = initialise_solutions env"
    and "extrinsic_traps st =
           replicate (length (filter is_extrinsic (traps p))) (Function_W env)"
    and "previous_solutions_traps st =
           initialise_extrinsic_traps env (length (filter is_extrinsic (traps p)))"
    and "extrinsic_formulations st =
           (if transient then formulation_extrinsic_traps env (traps p) else 0)"
    and "append_flag st = False"
    and "st_u st = Function_V env"
    and "exports p \<noteq> None"
  using assms
  by (auto simp: build_problem_def Let_def split: option.splits sum.splits prod.splits)

lemma example_collaborators_steady: "collaborators_steady example_env"
  by (simp add: collaborators_steady_def example_env_def)

lemma example_build_problem:
  "build_problem example_env example_parameters True (3 / 10)
     [Call_export_parameters, Call_set_log_level 40] = Inr example_state"
  by (simp add: example_state_def build_problem_def setup_temperature_def Let_def
        example_env_def example_parameters_def)

lemma example_state_traps_consistent: "traps_consistent example_state"
  using build_problem_Inr(5-7) [OF example_build_problem]
  by (simp add: traps_consistent_def example_env_def example_parameters_def is_extrinsic_def)

text \<open>The events before the loop and of the stationary branch.\<close>

lemma export_stage_trace:
  "export_stage env p = Inr tr0 \<Longrightarrow> list_all is_setup_event tr0"
  "export_stage env p = Inl (e, tr) \<Longrightarrow> list_all is_setup_event tr"
  by (auto simp: export_stage_def is_setup_event_def split: if_splits option.splits)

lemma setup_temperature_trace:
  "setup_temperature env p tr = Inr (T0, T_n0, exprs, tr') \<Longrightarrow>
     \<exists>evs. tr' = tr @ evs \<and> list_all is_setup_event evs"
  "setup_temperature env p tr = Inl (e, tr') \<Longrightarrow>
     \<exists>evs. tr' = tr @ evs \<and> list_all is_setup_event evs"
  by (auto simp: setup_temperature_def Let_def is_setup_event_def
           split: if_splits sum.splits)

lemma build_problem_trace:
  assumes "build_problem env p transient dt0 tr = Inr st"
  shows "\<exists>evs. trace st = tr @ evs \<and> list_all is_setup_event evs"
  using assms
  by (auto simp: build_problem_def Let_def is_setup_event_def
           split: option.splits sum.splits prod.splits
           dest!: setup_temperature_trace(1))

lemma build_problem_trace_Inl:
  assumes "build_problem env p transient dt0 tr = Inl (e, tr')"
  shows "\<exists>evs. tr' = tr @ evs \<and> list_all is_setup_event evs"
  using assms
  by (auto simp: build_problem_def Let_def is_setup_event_def
           split: option.splits sum.splits prod.splits
           dest!: setup_temperature_trace)

lemma setup_events_filter:
  assumes "list_all is_setup_event evs"
  shows "filter is_commit evs = []" and "filter is_post_processing evs = []"
    and "filter is_transport_solve evs = []"
  using assms by (induction evs) (simp_all add: is_setup_event_def)

lemma solve_steady_cases:
  obtains (solver_raises) e where
      "solve_steady env st = Inl (e, trace st @ [Call_solve_once])"
  | (post_processing_raises) e where
      "solve_steady env st =
         Inl (e, trace st @ [Call_solve_once,
                             Call_run_post_processing (st_t st) (append_flag st)])"
  | (returns) u_new dq where
      "solve_steady env st =
         Inr (st\<lparr>st_u := u_new, derived_quantities_global := dq,
                 trace := trace st @ [Call_solve_once,
                                      Call_run_post_processing (st_t st) (append_flag st)]\<rparr>)"
proof (cases "solve_once env (emit Call_solve_once st)")
  case (Inl e)
  then have "solve_steady env st = Inl (e, trace st @ [Call_solve_once])"
    by (simp add: solve_steady_def Let_def raise_def emit_def)
  then show ?thesis by (rule solver_raises)
next
  case (Inr u_new)
  let ?st3 = "emit (Call_run_post_processing (st_t st) (append_flag st))
                ((emit Call_solve_once st)\<lparr>st_u := u_new\<rparr>)"
  show ?thesis
  proof (cases "run_post_processing env ?st3")
    case (Inl e)
    with Inr have "solve_steady env st =
         Inl (e, trace st @ [Call_solve_once,
                             Call_run_post_processing (st_t st) (append_flag st)])"
      by (simp add: solve_steady_def Let_def raise_def emit_def)
    then show ?thesis by (rule post_processing_raises)
  next
    case (Inr res)
    obtain dq dt_new where "res = (dq, dt_new)" by (cases res)
    with Inr \<open>solve_once env (emit Call_solve_once st) = Inr u_new\<close>
    have "solve_steady env st =
         Inr (st\<lparr>st_u := u_new, derived_quantities_global := dq,
                 trace := trace st @ [Call_solve_once,
                                      Call_run_post_processing (st_t st) (append_flag st)]\<rparr>)"
      by (simp add: solve_steady_def Let_def emit_def)
    then show ?thesis by (rule returns)
  qed
qed


lemma make_output_trace:
  "make_output env p st = Inr (out, tr) \<Longrightarrow>
     \<exists>evs. tr = trace st @ evs \<and> list_all is_setup_event evs"
  "make_output env p st = Inl (e, tr) \<Longrightarrow> tr = trace st"
  by (auto simp: make_output_def is_setup_event_def split: option.splits)

text \<open>The part of an iteration before the first solve.\<close>

lemma update_expressions_all:
  "list_all (\<lambda>e. expr_t e = tm) (update_expressions es tm)"
  by (induction es) (simp_all add: update_expressions_def)

lemma update_bci_all:
  "list_all (\<lambda>e. expr_t e = tm) es \<Longrightarrow> list_all (\<lambda>e. expr_t e = tm) (update_bci es tm')"
  by (induction es) (simp_all add: update_bci_def)

lemma begin_step_expressions:
  "expressions (begin_step env p st) =
     (if S_T (props st) \<noteq> None
      then update_bci (update_expressions (expressions st) (st_t st + st_dt st))
             (st_t st + st_dt st)
      else update_expressions (expressions st) (st_t st + st_dt st))"
  by (auto simp: begin_step_defs)

lemma begin_step_synchronised: "synchronised (begin_step env p st)"
  by (simp add: synchronised_def begin_step_expressions begin_step_clock
        update_expressions_all update_bci_all)

lemma begin_step_props:
  "D_T (props (begin_step env p st)) = Ref_T"
  "H_T (props (begin_step env p st)) = map_option (\<lambda>r. Ref_T) (H_T (props st))"
  "thermal_cond_T (props (begin_step env p st)) =
     map_option (\<lambda>r. Ref_T) (thermal_cond_T (props st))"
  "S_T (props (begin_step env p st)) = map_option (\<lambda>r. Ref_T) (S_T (props st))"
  "cp_T (props (begin_step env p st)) = cp_T (props st)"
  "rho_T (props (begin_step env p st)) = rho_T (props st)"
  by (auto simp: begin_step_defs)

lemma begin_events_no_solve:
  "filter is_solve (begin_events p pr tm) = []"
  "filter is_commit (begin_events p pr tm) = []"
  "filter is_post_processing (begin_events p pr tm) = []"
  "filter is_transport_solve (begin_events p pr tm) = []"
  by (simp_all add: begin_events_def refresh_events_def)

lemma example_state_eq:
  "example_state =
    \<lparr> st_t = 0, st_dt = 3 / 10, st_T = 0, st_T_n = 300, st_T_expr_t = 0, st_u = 0, st_u_n = 0,
      extrinsic_traps = [0, 0], previous_solutions_traps = [0, 0],
      extrinsic_formulations = 2,
      expressions = [\<lparr> expr_t = 0, bci_t = None \<rparr>, \<lparr> expr_t = 0, bci_t = None \<rparr>,
                     \<lparr> expr_t = 0, bci_t = Some 0 \<rparr>, \<lparr> expr_t = 0, bci_t = None \<rparr>],
      props = \<lparr> D_T = Ref_other, thermal_cond_T = Some Ref_other, cp_T = Some Ref_other,
          rho_T = Some Ref_other, H_T = None,
                S_T = Some Ref_other \<rparr>,
      append_flag = False, derived_quantities_global = [], n_iter = 0,
      trace = [Call_export_parameters, Call_set_log_level 40, Call_create_mesh,
               Call_subdomains, Call_create_function_space 3 ''CG'', Interpolate_T_ini,
               Call_define_dirichlet_bcs_T, Call_define_variational_problem_heat_transfers,
               Call_create_properties, Call_initialise_solutions,
               Call_initialise_extrinsic_traps 2, Call_formulation,
               Call_apply_boundary_conditions, Call_apply_fluxes,
               Call_formulation_extrinsic_traps] \<rparr>"
  by (simp add: example_state_def build_problem_def setup_temperature_def Let_def
        example_env_def example_parameters_def is_extrinsic_def numeral_2_eq_2)

lemma begin_step_trace_head:
  "\<exists>rest. trace (begin_step env p st) =
            trace st @ Advance_time (st_t st + st_dt st)
              # Call_update_expressions (st_t st + st_dt st) # rest
          \<and> filter is_solve rest = []"
proof -
  let ?tm = "st_t st + st_dt st"
  let ?rest = "(if temp_type (temperature p) = ''expression''
                then [Assign_T_n, Interpolate_T ?tm] else []) @ refresh_events (props st) ?tm"
  have "trace (begin_step env p st) =
          trace st @ Advance_time ?tm # Call_update_expressions ?tm # ?rest"
    by (simp add: begin_step_trace begin_events_def)
  moreover have "filter is_solve ?rest = []"
    by (simp add: refresh_events_def)
  ultimately show ?thesis by blast
qed

lemma solve_heat_transfers_synchronised:
  assumes "solve_heat_transfers env p st0 = Inr st1" and "synchronised st0"
  shows "synchronised st1 \<and> st_t st1 = st_t st0"
proof -
  from assms(1) obtain T_new T_n_new where
    eq: "st1 = st0\<lparr>st_T := T_new, st_T_n := T_n_new, trace := trace st0 @ heat_events p\<rparr>"
    by (rule solve_heat_transfers_InrE) blast
  have "expressions st1 = expressions st0" "st_t st1 = st_t st0"
    by (simp_all add: eq)
  with assms(2) show ?thesis by (simp add: synchronised_def)
qed

text \<open>The concrete run, and what holds at the head of every iteration of a run.\<close>

lemma example_time_step:
  "time_step example_env example_parameters example_state = Inr example_next_state"
  by (simp add: time_step_def solve_step_def finish_step_def begin_step_defs
        update_expressions_def update_bci_def solve_heat_transfers_def
        solve_main_problem_def post_processing_def set_append_def
        update_previous_solutions_def heat_abs_tol_def heat_rel_tol_def upt_rec
        example_state_eq example_next_state_def example_env_def example_parameters_def)

lemma example_loop_state: "loop_state example_env example_parameters example_state"
  by (rule loop_state.start [OF example_build_problem])

lemma loop_state_traps:
  assumes "loop_state env p st"
  shows "length (extrinsic_traps st) = length (filter is_extrinsic (traps p))
         \<and> extrinsic_formulations st = formulation_extrinsic_traps env (traps p)
         \<and> length (previous_solutions_traps st) =
             length (initialise_extrinsic_traps env (length (filter is_extrinsic (traps p))))"
  using assms
proof (induction rule: loop_state.induct)
  case (start dt0 tr st)
  from build_problem_Inr(5-7) [OF start] show ?case by simp
next
  case (step st st')
  from time_step_Inr_fields(4-6) [OF step.hyps(2)] step.IH show ?case by simp
qed

lemma step_prefix_no_trap_solve:
  "filter is_trap_solve (begin_events p pr tm) = []"
  "filter is_trap_solve (heat_events p) = []"
  "filter is_commit (heat_events p) = []"
  by (simp_all add: begin_events_def refresh_events_def heat_events_def)

lemma filter_commit_trap_solves:
  "filter is_commit (map (\<lambda>j. Solve_extrinsic j []) js) = []"
  by (induction js) simp_all

lemma post_processing_Inl:
  assumes "post_processing env st = Inl x"
  shows "snd x = trace st @ [Call_run_post_processing (st_t st) (append_flag st)]"
  using assms
  by (auto simp: post_processing_def Let_def raise_def emit_def split: sum.splits prod.splits)

text \<open>What a stationary solve that returns has called.\<close>

lemma solve_steady_InrE:
  assumes "solve_steady env st = Inr st'"
  obtains u_new dq dt_new where
    "solve_once env (emit Call_solve_once st) = Inr u_new"
    "run_post_processing env
       (emit (Call_run_post_processing (st_t st) (append_flag st))
          ((emit Call_solve_once st)\<lparr>st_u := u_new\<rparr>)) = Inr (dq, dt_new)"
    "st' = st\<lparr>st_u := u_new, derived_quantities_global := dq,
               trace := trace st @ [Call_solve_once,
                          Call_run_post_processing (st_t st) (append_flag st)]\<rparr>"
  using assms
  by (auto simp: solve_steady_def Let_def raise_def emit_def
           split: sum.splits prod.splits)

text \<open>
  The calls behind the trap solves: the solve of index \<open>j\<close> is a call of \<open>solve_extrinsic\<close>
  whose result is the final field \<open>j\<close>, made when the fields before \<open>j\<close> are solved and the
  others are not.
\<close>

lemma solve_extrinsic_traps_unchanged:
  "solve_extrinsic_traps env js st = Inr st' \<Longrightarrow> k \<notin> set js \<Longrightarrow>
     extrinsic_traps st' ! k = extrinsic_traps st ! k"
proof (induction js arbitrary: st)
  case Nil
  then show ?case by simp
next
  case (Cons j js)
  from Cons.prems(1) obtain f where
    rest: "solve_extrinsic_traps env js
             ((emit (Solve_extrinsic j []) st)
                \<lparr>extrinsic_traps := (extrinsic_traps (emit (Solve_extrinsic j []) st))[j := f]\<rparr>) = Inr st'"
    by (auto simp: Let_def raise_def split: if_splits sum.splits)
  from Cons.prems(2) have "k \<notin> set js" "j \<noteq> k" by auto
  with Cons.IH [OF rest] show ?case
    by (simp add: emit_def)
qed

lemma solve_extrinsic_traps_calls:
  "solve_extrinsic_traps env js st = Inr st' \<Longrightarrow> distinct js \<Longrightarrow> i < length js \<Longrightarrow>
     \<exists>s. solve_extrinsic env (js ! i) [] s = Inr (extrinsic_traps st' ! (js ! i))
        \<and> trace s = trace st @ map (\<lambda>k. Solve_extrinsic k []) (take (Suc i) js)
        \<and> st_u s = st_u st \<and> st_t s = st_t st
        \<and> previous_solutions_traps s = previous_solutions_traps st
        \<and> (\<forall>k. k \<notin> set (take i js) \<longrightarrow> extrinsic_traps s ! k = extrinsic_traps st ! k)
        \<and> (\<forall>k \<in> set (take i js). extrinsic_traps s ! k = extrinsic_traps st' ! k)"
proof (induction js arbitrary: st i)
  case Nil
  then show ?case by simp
next
  case (Cons j js)
  let ?st1 = "emit (Solve_extrinsic j []) st"
  from Cons.prems(1) obtain f where
    j: "j < length (extrinsic_traps st)" and
    f: "solve_extrinsic env j [] ?st1 = Inr f" and
    rest: "solve_extrinsic_traps env js
             (?st1\<lparr>extrinsic_traps := (extrinsic_traps ?st1)[j := f]\<rparr>) = Inr st'"
    by (auto simp: Let_def raise_def split: if_splits sum.splits)
  let ?st2 = "?st1\<lparr>extrinsic_traps := (extrinsic_traps ?st1)[j := f]\<rparr>"
  from Cons.prems(2) have nj: "j \<notin> set js" and d: "distinct js" by simp_all
  from solve_extrinsic_traps_unchanged [OF rest nj] j
  have fj: "extrinsic_traps st' ! j = f" by (simp add: emit_def)
  show ?case
  proof (cases i)
    case 0
    have "solve_extrinsic env ((j # js) ! 0) [] ?st1
            = Inr (extrinsic_traps st' ! ((j # js) ! 0))"
      using f fj by simp
    moreover have "trace ?st1 =
        trace st @ map (\<lambda>k. Solve_extrinsic k []) (take (Suc 0) (j # js))"
      by (simp add: emit_def)
    moreover have "st_u ?st1 = st_u st" "st_t ?st1 = st_t st"
      "previous_solutions_traps ?st1 = previous_solutions_traps st"
      "extrinsic_traps ?st1 = extrinsic_traps st"
      by (simp_all add: emit_def)
    ultimately show ?thesis unfolding 0 by (intro exI [of _ ?st1]) simp
  next
    case (Suc i')
    with Cons.prems(3) have i': "i' < length js" by simp
    from Cons.IH [OF rest d i'] obtain s where
      c: "solve_extrinsic env (js ! i') [] s = Inr (extrinsic_traps st' ! (js ! i'))" and
      t: "trace s = trace ?st2 @ map (\<lambda>k. Solve_extrinsic k []) (take (Suc i') js)" and
      u: "st_u s = st_u ?st2" "st_t s = st_t ?st2"
         "previous_solutions_traps s = previous_solutions_traps ?st2" and
      o: "\<forall>k. k \<notin> set (take i' js) \<longrightarrow> extrinsic_traps s ! k = extrinsic_traps ?st2 ! k" and
      n: "\<forall>k \<in> set (take i' js). extrinsic_traps s ! k = extrinsic_traps st' ! k"
      by blast
    have nt: "j \<notin> set (take i' js)" using nj by (auto dest: in_set_takeD)
    have "solve_extrinsic env ((j # js) ! i) [] s
            = Inr (extrinsic_traps st' ! ((j # js) ! i))"
      using c Suc by simp
    moreover have "trace s =
        trace st @ map (\<lambda>k. Solve_extrinsic k []) (take (Suc i) (j # js))"
      using t Suc by (simp add: emit_def)
    moreover have "st_u s = st_u st" "st_t s = st_t st"
      "previous_solutions_traps s = previous_solutions_traps st"
      using u by (simp_all add: emit_def)
    moreover have "\<forall>k. k \<notin> set (take i (j # js)) \<longrightarrow>
                     extrinsic_traps s ! k = extrinsic_traps st ! k"
      using o Suc by (simp add: emit_def)
    moreover have "\<forall>k \<in> set (take i (j # js)). extrinsic_traps s ! k = extrinsic_traps st' ! k"
    proof
      fix k assume "k \<in> set (take i (j # js))"
      with Suc have "k = j \<or> k \<in> set (take i' js)" by simp
      then show "extrinsic_traps s ! k = extrinsic_traps st' ! k"
      proof
        assume kj: "k = j"
        from o nt have "extrinsic_traps s ! j = extrinsic_traps ?st2 ! j" by blast
        also have "\<dots> = f" using j by (simp add: emit_def)
        finally show ?thesis using fj kj by simp
      next
        assume "k \<in> set (take i' js)"
        with n show ?thesis by blast
      qed
    qed
    ultimately show ?thesis by blast
  qed
qed

lemma solve_extrinsic_traps_upt:
  assumes "solve_extrinsic_traps env [0 ..< n] st = Inr st'" and "j < n"
  shows "\<exists>s. solve_extrinsic env j [] s = Inr (extrinsic_traps st' ! j)
        \<and> trace s = trace st @ map (\<lambda>k. Solve_extrinsic k []) [0 ..< Suc j]
        \<and> st_u s = st_u st \<and> st_t s = st_t st
        \<and> previous_solutions_traps s = previous_solutions_traps st
        \<and> (\<forall>k. j \<le> k \<longrightarrow> extrinsic_traps s ! k = extrinsic_traps st ! k)
        \<and> (\<forall>k < j. extrinsic_traps s ! k = extrinsic_traps st' ! k)"
proof -
  have i: "j < length [0 ..< n]" using assms(2) by simp
  have tk: "take (Suc j) [0 ..< n] = [0 ..< Suc j]" "take j [0 ..< n] = [0 ..< j]"
    using assms(2) by (simp_all add: take_upt)
  have nth: "[0 ..< n] ! j = j" using assms(2) by simp
  from solve_extrinsic_traps_calls [OF assms(1) distinct_upt i]
  show ?thesis unfolding tk nth by (auto simp: not_less)
qed

section \<open>The mode check\<close>

text \<open>
  C1, as stated, fails: lines 48-53 run before the mode check. With a parameter export that
  raises anything but TypeError (here a PermissionError), a configuration with an unknown
  \<open>type\<close> makes \<open>run\<close> fail with that exception, not with the error of the mode check.
\<close>

theorem unknown_type_preempted_by_export_failure:
  "run (example_env_export_raises (OtherError ''PermissionError''))
       (with_type (Some ''solve'') example_parameters) 40 =
     Some (Inl (OtherError ''PermissionError'', [Call_export_parameters]))"
  by (simp add: run_def return_output_def simulate_def export_stage_def
        example_env_export_raises_def with_type_def example_parameters_def)

text \<open>
  C1, amended: a configuration whose \<open>solving_parameters\<close> has a \<open>type\<close> that is neither
  \<open>solve_transient\<close> nor \<open>solve_stationary\<close> always makes \<open>run\<close> fail, and nothing has
  been called by then but the parameter export and \<open>set_log_level\<close>: no mesh, no solve.
  The failure is the ValueError of line 65 when lines 48-53 go through, that is when the
  configuration has an \<open>exports\<close> mapping and the parameter export is not requested,
  returns, or raises TypeError; otherwise it is what lines 49-51 raise, the KeyError of the
  missing \<open>exports\<close> or the exception of the export.
\<close>

theorem run_unknown_type_fails_before_mesh:
  assumes "sp_type (solving_parameters p) = Some ty"
    and "ty \<noteq> ''solve_transient''" and "ty \<noteq> ''solve_stationary''"
  shows "run env p log_level =
           (case export_stage env p of
              Inl x \<Rightarrow> Some (Inl x)
            | Inr tr0 \<Rightarrow>
                Some (Inl (ValueError (ty @ '' unkown''), tr0 @ [Call_set_log_level log_level])))
         \<and> (\<exists>e tr. run env p log_level = Some (Inl (e, tr))
                \<and> set tr \<subseteq> {Call_export_parameters, Call_set_log_level log_level})
         \<and> (\<forall>ex. exports p = Some ex
                \<and> (ex_parameters ex = None \<or> export_parameters env p = None
                    \<or> export_parameters env p = Some TypeError) \<longrightarrow>
               (\<exists>tr. run env p log_level = Some (Inl (ValueError (ty @ '' unkown''), tr))))"
proof -
  have c: "check_transient (solving_parameters p) = Inl (ValueError (ty @ '' unkown''))"
    using assms by (simp add: check_transient_def)
  have r: "run env p log_level =
           (case export_stage env p of
              Inl x \<Rightarrow> Some (Inl x)
            | Inr tr0 \<Rightarrow>
                Some (Inl (ValueError (ty @ '' unkown''), tr0 @ [Call_set_log_level log_level])))"
    using c
    by (simp add: run_def return_output_def simulate_def after_export_def Let_def
             split: sum.splits)
  have t: "\<exists>e tr. run env p log_level = Some (Inl (e, tr))
                \<and> set tr \<subseteq> {Call_export_parameters, Call_set_log_level log_level}"
  proof (cases "export_stage env p")
    case (Inl x)
    obtain e tr where x: "x = (e, tr)" by (cases x)
    from Inl x have "set tr \<subseteq> {Call_export_parameters}"
      by (auto simp: export_stage_def split: option.splits if_splits)
    with Inl x r show ?thesis by auto
  next
    case (Inr tr0)
    then have "set tr0 \<subseteq> {Call_export_parameters}"
      by (auto simp: export_stage_def split: option.splits if_splits)
    with Inr r show ?thesis by auto
  qed
  have v: "\<exists>tr. run env p log_level = Some (Inl (ValueError (ty @ '' unkown''), tr))"
    if "exports p = Some ex"
      and "ex_parameters ex = None \<or> export_parameters env p = None
           \<or> export_parameters env p = Some TypeError" for ex
  proof -
    from that have "\<exists>tr0. export_stage env p = Inr tr0"
      by (auto simp: export_stage_def)
    with r show ?thesis by auto
  qed
  from r t v show ?thesis by blast
qed

theorem run_unknown_type_fails_before_mesh_witness:
  "run example_env (with_type (Some ''solve'') example_parameters) 40 =
     Some (Inl (ValueError ''solve unkown'', [Call_export_parameters, Call_set_log_level 40]))"
proof -
  let ?p = "with_type (Some ''solve'') example_parameters"
  have h1: "sp_type (solving_parameters ?p) = Some ''solve''"
    by (simp add: with_type_def)
  have h2: "''solve'' \<noteq> ''solve_transient''" by simp
  have h3: "''solve'' \<noteq> ''solve_stationary''" by simp
  have h4: "export_stage example_env ?p = Inr [Call_export_parameters]"
    by (simp add: export_stage_def with_type_def example_env_def example_parameters_def)
  from run_unknown_type_fails_before_mesh [OF h1 h2 h3, of example_env 40]
  have "run example_env ?p 40 =
           (case export_stage example_env ?p of
              Inl x \<Rightarrow> Some (Inl x)
            | Inr tr0 \<Rightarrow>
                Some (Inl (ValueError (''solve'' @ '' unkown''), tr0 @ [Call_set_log_level 40])))"
    by (elim conjE)
  then show ?thesis by (simp add: h4)
qed

section \<open>The time loop\<close>

text \<open>
  C2: a transient run with final time \<open>F > 0\<close> and step size \<open>d > 0\<close>, in which no
  collaborator raises and none changes \<open>dt\<close>, returns from its loop after
  \<open>ceil(F/d)\<close> iterations, with \<open>F \<le> t < F + d\<close>. Arithmetic is exact (reals); the
  loop is shown to end, not assumed to.
\<close>

theorem transient_run_step_count:
  assumes "check_transient (solving_parameters p) = Inr True"
    and "sp_final_time (solving_parameters p) = Some F"
    and "sp_initial_stepsize (solving_parameters p) = Some d"
    and "0 < F" and "0 < d"
    and "collaborators_steady env"
    and "export_stage env p = Inr tr0"
    and "build_problem env p True d (tr0 @ [Call_set_log_level log_level]) = Inr st0"
    and "traps_consistent st0"
  shows "\<exists>st'. simulate env p log_level = Some (Inr st')
           \<and> n_iter st' = nat \<lceil>F / d\<rceil> \<and> F \<le> st_t st' \<and> st_t st' < F + d"
proof -
  have t0: "st_t st0 = 0" and d0: "st_dt st0 = d" and n0: "n_iter st0 = 0"
    using build_problem_Inr(1-3) [OF assms(8)] by simp_all
  have "nat \<lceil>(F - st_t st0) / d\<rceil> = nat \<lceil>F / d\<rceil>" by (simp add: t0)
  from time_loop_fixed_dt [OF assms(6) assms(5) assms(9) d0 this, of p]
  obtain st' where
    loop: "time_loop env p F st0 = Some (Inr st')" and
    n: "n_iter st' = nat \<lceil>F / d\<rceil>" and
    t: "st_t st' = real (nat \<lceil>F / d\<rceil>) * d"
    by (auto simp: t0 n0)
  have sim: "simulate env p log_level = Some (Inr st')"
    using assms(1-3,7,8) loop by (simp add: simulate_def after_export_def Let_def)
  have "0 < F / d" using assms(4,5) by simp
  then have "- 1 < F / d" by linarith
  then have pos: "0 \<le> \<lceil>F / d\<rceil>" by simp
  then have r: "real (nat \<lceil>F / d\<rceil>) = of_int \<lceil>F / d\<rceil>" by simp
  have le: "F / d \<le> of_int \<lceil>F / d\<rceil>" by (rule le_of_int_ceiling)
  have "F / d * d \<le> of_int \<lceil>F / d\<rceil> * d"
    by (rule mult_right_mono [OF le]) (use assms(5) in simp)
  then have lo: "F \<le> of_int \<lceil>F / d\<rceil> * d"
    using assms(5) by simp
  have lt: "of_int \<lceil>F / d\<rceil> < F / d + 1" by linarith
  have "of_int \<lceil>F / d\<rceil> * d < (F / d + 1) * d"
    by (rule mult_strict_right_mono [OF lt assms(5)])
  moreover have "(F / d + 1) * d = F + d"
    using assms(5) by (simp add: field_simps)
  ultimately have hi: "of_int \<lceil>F / d\<rceil> * d < F + d" by simp
  from sim n lo hi show ?thesis by (simp add: t r)
qed

theorem transient_run_step_count_witness:
  "\<exists>st'. simulate example_env example_parameters 40 = Some (Inr st')
         \<and> n_iter st' = 4 \<and> 1 \<le> st_t st' \<and> st_t st' < 13 / 10"
proof -
  have h1: "check_transient (solving_parameters example_parameters) = Inr True"
    by (simp add: check_transient_def example_parameters_def)
  have h2: "sp_final_time (solving_parameters example_parameters) = Some 1"
    by (simp add: example_parameters_def)
  have h3: "sp_initial_stepsize (solving_parameters example_parameters) = Some (3 / 10)"
    by (simp add: example_parameters_def)
  have h4: "(0::real) < 1" by simp
  have h5: "(0::real) < 3 / 10" by simp
  have h7: "export_stage example_env example_parameters = Inr [Call_export_parameters]"
    by (simp add: export_stage_def example_env_def example_parameters_def)
  have h8: "build_problem example_env example_parameters True (3 / 10)
              ([Call_export_parameters] @ [Call_set_log_level 40]) = Inr example_state"
    using example_build_problem by simp
  have c: "nat \<lceil>(1::real) / (3 / 10)\<rceil> = 4" by simp
  show ?thesis
    using transient_run_step_count [OF h1 h2 h3 h4 h5 example_collaborators_steady h7 h8
        example_state_traps_consistent]
    by (simp add: c)
qed

section \<open>The default mode\<close>

text \<open>
  C10, as stated, fails: lines 48-53 run before the mode is chosen. With a parameter export
  that raises anything but TypeError (here a PermissionError), a configuration without a
  \<open>type\<close> key makes \<open>run\<close> fail before it proceeds at all.
\<close>

theorem run_without_type_preempted_by_export_failure:
  "run (example_env_export_raises (OtherError ''PermissionError''))
       (with_type None example_parameters) 40 =
     Some (Inl (OtherError ''PermissionError'', [Call_export_parameters]))"
  by (simp add: run_def return_output_def simulate_def export_stage_def
        example_env_export_raises_def with_type_def example_parameters_def)

text \<open>
  C10, amended: for a configuration whose \<open>solving_parameters\<close> has no \<open>type\<close> key the mode
  check raises nothing and leaves \<open>transient\<close> at its default \<open>True\<close> (lines 57-66), and
  whenever lines 48-53 go through \<open>run\<close> is the transient run: it reads \<open>final_time\<close> and
  \<open>initial_stepsize\<close> (lines 69-73), builds the problem in transient mode and enters the
  time loop of lines 184-250. Otherwise \<open>run\<close> fails with what lines 49-51 raise.
\<close>

theorem run_without_type_is_transient:
  assumes "sp_type (solving_parameters p) = None"
  shows "check_transient (solving_parameters p) = Inr True
         \<and> run env p log_level =
             (case export_stage env p of
                Inl x \<Rightarrow> Some (Inl x)
              | Inr tr0 \<Rightarrow>
                  return_output env p
                    (case sp_final_time (solving_parameters p) of
                       None \<Rightarrow> Some (Inl (KeyError ''final_time'',
                                            tr0 @ [Call_set_log_level log_level]))
                     | Some final_time \<Rightarrow>
                         (case sp_initial_stepsize (solving_parameters p) of
                            None \<Rightarrow> Some (Inl (KeyError ''initial_stepsize'',
                                                 tr0 @ [Call_set_log_level log_level]))
                          | Some initial_stepsize \<Rightarrow>
                              (case build_problem env p True initial_stepsize
                                      (tr0 @ [Call_set_log_level log_level]) of
                                 Inl x \<Rightarrow> Some (Inl x)
                               | Inr st0 \<Rightarrow> time_loop env p final_time st0))))"
proof -
  have c: "check_transient (solving_parameters p) = Inr True"
    using assms by (simp add: check_transient_def)
  then show ?thesis
    by (simp add: run_def simulate_def after_export_def Let_def return_output_def
             split: sum.splits)
qed

theorem run_without_type_is_transient_witness:
  "\<exists>st' out. time_loop example_env (with_type None example_parameters) 1 example_state
                 = Some (Inr st')
             \<and> n_iter st' = 4
             \<and> run example_env (with_type None example_parameters) 40
                 = Some (Inr (out, trace st'))"
proof -
  let ?p = "with_type None example_parameters"
  have h1: "sp_type (solving_parameters ?p) = None"
    by (simp add: with_type_def)
  have e: "export_stage example_env ?p = Inr [Call_export_parameters]"
    by (simp add: export_stage_def with_type_def example_env_def example_parameters_def)
  have f: "sp_final_time (solving_parameters ?p) = Some 1"
    "sp_initial_stepsize (solving_parameters ?p) = Some (3 / 10)"
    by (simp_all add: with_type_def example_parameters_def)
  have b: "build_problem example_env ?p True (3 / 10)
             [Call_export_parameters, Call_set_log_level 40] = Inr example_state"
    by (simp add: example_state_eq build_problem_def setup_temperature_def Let_def
          with_type_def example_env_def example_parameters_def is_extrinsic_def
          numeral_2_eq_2)
  have d: "st_dt example_state = 3 / 10"
    and n: "nat \<lceil>(1 - st_t example_state) / (3 / 10)\<rceil> = 4"
    and z: "n_iter example_state = 0"
    by (simp_all add: example_state_eq)
  have pos: "(0::real) < 3 / 10" by simp
  from time_loop_fixed_dt [OF example_collaborators_steady pos
         example_state_traps_consistent d n, of ?p]
  obtain st' where l: "time_loop example_env ?p 1 example_state = Some (Inr st')"
    and i: "n_iter st' = 4" by (auto simp: z)
  have "\<exists>out. make_output example_env ?p st' = Inr (out, trace st')"
    by (simp add: make_output_def with_type_def example_parameters_def)
  then obtain out where m: "make_output example_env ?p st' = Inr (out, trace st')" ..
  from run_without_type_is_transient [OF h1, of example_env 40]
  have "run example_env ?p 40 = Some (Inr (out, trace st'))"
    by (simp add: e f b l m return_output_def)
  with l i show ?thesis by blast
qed

section \<open>The parameter export\<close>

text \<open>
  C8, as stated, fails: line 52 catches TypeError only. A parameter export that raises
  another exception (here a PermissionError) ends the run with that exception, before
  \<open>set_log_level\<close>.
\<close>

theorem export_failure_reaches_caller:
  "run (example_env_export_raises (OtherError ''PermissionError'')) example_parameters 40 =
     Some (Inl (OtherError ''PermissionError'', [Call_export_parameters]))"
  by (simp add: run_def return_output_def simulate_def export_stage_def
        example_env_export_raises_def example_parameters_def)

text \<open>
  C8, amended: when the parameter export is requested, a TypeError it raises is caught and
  ignored, and the run goes on from line 55 exactly as after an export that returned; any
  other exception of the export is raised to the caller of \<open>run\<close>.
\<close>

theorem only_TypeError_of_export_is_ignored:
  assumes "exports p = Some ex" and "ex_parameters ex \<noteq> None"
  shows "(export_parameters env p = None \<or> export_parameters env p = Some TypeError \<longrightarrow>
            run env p log_level =
              return_output env p (after_export env p log_level [Call_export_parameters]))
         \<and> (\<forall>e. export_parameters env p = Some e \<and> e \<noteq> TypeError \<longrightarrow>
               run env p log_level = Some (Inl (e, [Call_export_parameters])))"
  using assms
  by (auto simp: run_def simulate_def export_stage_def return_output_def)

theorem only_TypeError_of_export_is_ignored_witness:
  "run (example_env_export_raises TypeError)
       (with_type (Some ''solve_stationary'') example_parameters) 40 =
     run example_env (with_type (Some ''solve_stationary'') example_parameters) 40
   \<and> (\<exists>out tr. run (example_env_export_raises TypeError)
          (with_type (Some ''solve_stationary'') example_parameters) 40 = Some (Inr (out, tr))
          \<and> Call_solve_once \<in> set tr)"
proof -
  let ?p = "with_type (Some ''solve_stationary'') example_parameters"
  have h: "exports ?p = Some (the (exports ?p))"
    and h': "ex_parameters (the (exports ?p)) \<noteq> None"
    by (simp_all add: with_type_def example_parameters_def)
  have e1: "export_parameters (example_env_export_raises TypeError) ?p = Some TypeError"
    by (simp add: example_env_export_raises_def)
  have e2: "export_parameters example_env ?p = None"
    by (simp add: example_env_def)
  have r1: "run (example_env_export_raises TypeError) ?p 40 =
      return_output (example_env_export_raises TypeError) ?p
        (after_export (example_env_export_raises TypeError) ?p 40 [Call_export_parameters])"
    using only_TypeError_of_export_is_ignored [OF h h', of "example_env_export_raises TypeError" 40]
      e1 by simp
  have r2: "run example_env ?p 40 =
      return_output example_env ?p (after_export example_env ?p 40 [Call_export_parameters])"
    using only_TypeError_of_export_is_ignored [OF h h', of example_env 40] e2 by simp
  have a1: "after_export (example_env_export_raises TypeError) ?p 40 [Call_export_parameters]
      = after_export example_env ?p 40 [Call_export_parameters]"
    by (simp add: after_export_def check_transient_def with_type_def example_parameters_def
          build_problem_def setup_temperature_def solve_steady_def Let_def emit_def raise_def
          example_env_export_raises_def example_env_def is_extrinsic_def)
  have a2: "\<exists>st. after_export example_env ?p 40 [Call_export_parameters] = Some (Inr st)
            \<and> Call_solve_once \<in> set (trace st)"
    by (simp add: after_export_def check_transient_def with_type_def example_parameters_def
          build_problem_def setup_temperature_def solve_steady_def Let_def emit_def raise_def
          example_env_def is_extrinsic_def)
  then obtain st where st: "after_export example_env ?p 40 [Call_export_parameters] = Some (Inr st)"
    and so: "Call_solve_once \<in> set (trace st)" by blast
  have m: "make_output (example_env_export_raises TypeError) ?p st = make_output example_env ?p st"
    by (simp add: make_output_def example_env_export_raises_def split: option.splits)
  have "run (example_env_export_raises TypeError) ?p 40 = run example_env ?p 40"
    by (simp add: r1 r2 a1 st return_output_def m)
  moreover have "\<exists>out tr. run (example_env_export_raises TypeError) ?p 40 = Some (Inr (out, tr))
          \<and> Call_solve_once \<in> set tr"
  proof -
    have "\<exists>out. make_output example_env ?p st = Inr (out, trace st)"
      by (simp add: make_output_def with_type_def example_parameters_def)
    then obtain out where "make_output example_env ?p st = Inr (out, trace st)" ..
    then have "run (example_env_export_raises TypeError) ?p 40 = Some (Inr (out, trace st))"
      by (simp add: r1 a1 st return_output_def m)
    with so show ?thesis by blast
  qed
  ultimately show ?thesis by blast
qed

section \<open>The stationary run\<close>

text \<open>
  C3, as stated, fails: a stationary run makes its one post-processing call only when the
  transport solve returns. With a \<open>solve_once\<close> that raises (here for non-convergence), the
  run has made one transport solve and no post-processing call when it ends.
\<close>

theorem stationary_run_without_post_processing:
  "run (example_env_solver_raises (OtherError ''ConvergenceError''))
       (with_type (Some ''solve_stationary'') example_parameters) 40 =
     Some (Inl (OtherError ''ConvergenceError'',
                [Call_export_parameters, Call_set_log_level 40, Call_create_mesh,
                 Call_subdomains, Call_create_function_space 3 ''CG'', Interpolate_T_ini,
                 Call_define_dirichlet_bcs_T, Call_define_variational_problem_heat_transfers,
                 Call_create_properties, Call_initialise_solutions,
                 Call_initialise_extrinsic_traps 2, Call_formulation,
                 Call_apply_boundary_conditions, Call_apply_fluxes,
                 Call_solve_once]))"
  by (simp add: run_def return_output_def simulate_def export_stage_def after_export_def
        check_transient_def with_type_def example_parameters_def build_problem_def
        setup_temperature_def solve_steady_def Let_def emit_def raise_def
        example_env_solver_raises_def example_env_def is_extrinsic_def)


text \<open>
  C3, amended: a run with \<open>type\<close> equal to \<open>solve_stationary\<close> always returns or raises
  (there is no loop), never assigns \<open>u_n\<close> or a previous trap solution from the current one,
  and calls the transport solver and the post-processing at most once each. When it returns
  normally, it has made exactly one transport solve, the call of \<open>solve_once\<close> on the state
  that lines 75-178 built, whose result is the final \<open>u\<close>, and exactly one post-processing
  call, of \<open>run_post_processing\<close> with that \<open>u\<close> at \<open>t = 0\<close> and \<open>append = False\<close>, whose result
  is the final list of derived quantities; \<open>u_n\<close> and the previous trap solutions still hold
  their initial values.
\<close>

theorem stationary_run_solves_once:
  assumes "sp_type (solving_parameters p) = Some ''solve_stationary''"
  shows "\<exists>r. run env p log_level = Some r
           \<and> filter is_commit (result_trace r) = []
           \<and> length (filter is_transport_solve (result_trace r)) \<le> 1
           \<and> length (filter is_post_processing (result_trace r)) \<le> 1
           \<and> (\<forall>out tr. r = Inr (out, tr) \<longrightarrow>
                  filter is_transport_solve tr = [Call_solve_once]
                  \<and> filter is_post_processing tr = [Call_run_post_processing 0 False]
                  \<and> (\<exists>tr0 st0 u_new dq dt_new st.
                        export_stage env p = Inr tr0
                      \<and> build_problem env p False 0 (tr0 @ [Call_set_log_level log_level])
                          = Inr st0
                      \<and> solve_once env (emit Call_solve_once st0) = Inr u_new
                      \<and> run_post_processing env
                            (emit (Call_run_post_processing 0 False)
                               ((emit Call_solve_once st0)\<lparr>st_u := u_new\<rparr>))
                          = Inr (dq, dt_new)
                      \<and> simulate env p log_level = Some (Inr st)
                      \<and> make_output env p st = Inr (out, tr)
                      \<and> st_u st = u_new
                      \<and> derived_quantities_global st = dq
                      \<and> st_t st = 0
                      \<and> st_u_n st = initialise_solutions env
                      \<and> previous_solutions_traps st =
                          initialise_extrinsic_traps env
                            (length (filter is_extrinsic (traps p)))))"
proof -
  have ct: "check_transient (solving_parameters p) = Inr False"
    using assms by (simp add: check_transient_def)
  show ?thesis
  proof (cases "export_stage env p")
    case (Inl x)
    obtain e tr where x: "x = (e, tr)" by (cases x)
    from Inl x have "list_all is_setup_event tr" by (simp add: export_stage_trace(2))
    from setup_events_filter [OF this] Inl x show ?thesis
      by (simp add: run_def simulate_def return_output_def)
  next
    case (Inr tr0)
    let ?tr1 = "tr0 @ [Call_set_log_level log_level]"
    have s1: "list_all is_setup_event ?tr1"
      using export_stage_trace(1) [OF Inr] by (simp add: is_setup_event_def)
    have sim: "simulate env p log_level =
        (case build_problem env p False 0 ?tr1 of
           Inl x \<Rightarrow> Some (Inl x) | Inr st0 \<Rightarrow> Some (solve_steady env st0))"
      using Inr ct by (simp add: simulate_def after_export_def Let_def)
    show ?thesis
    proof (cases "build_problem env p False 0 ?tr1")
      case (Inl x)
      obtain e tr where x: "x = (e, tr)" by (cases x)
      from build_problem_trace_Inl [OF Inl [unfolded x]] obtain evs where
        "tr = ?tr1 @ evs" "list_all is_setup_event evs" by blast
      with s1 have "list_all is_setup_event tr" by simp
      from setup_events_filter [OF this] Inl x sim show ?thesis
        by (simp add: run_def return_output_def)
    next
      case b: (Inr st0)
      from build_problem_trace [OF b] obtain evs where
        "trace st0 = ?tr1 @ evs" "list_all is_setup_event evs" by blast
      with s1 have s0: "list_all is_setup_event (trace st0)" by simp
      note f0 = setup_events_filter [OF s0]
      note b0 = build_problem_Inr(1,4,6,8) [OF b]
      from build_problem_Inr(10) [OF b] obtain ex where ex: "exports p = Some ex" by blast
      show ?thesis
      proof (cases "solve_steady env st0")
        case (Inl x)
        obtain e tr where x: "x = (e, tr)" by (cases x)
        have "filter is_commit tr = [] \<and> length (filter is_transport_solve tr) \<le> 1
                \<and> length (filter is_post_processing tr) \<le> 1"
          using Inl x f0 by (cases rule: solve_steady_cases [of env st0]) auto
        with Inl x b sim show ?thesis
          by (simp add: run_def return_output_def)
      next
        case (Inr st)
        from solve_steady_InrE [OF Inr] obtain u_new dq dt_new where
          so: "solve_once env (emit Call_solve_once st0) = Inr u_new" and
          pp: "run_post_processing env
                 (emit (Call_run_post_processing (st_t st0) (append_flag st0))
                    ((emit Call_solve_once st0)\<lparr>st_u := u_new\<rparr>)) = Inr (dq, dt_new)" and
          st: "st = st0\<lparr>st_u := u_new, derived_quantities_global := dq,
                 trace := trace st0 @ [Call_solve_once,
                            Call_run_post_processing (st_t st0) (append_flag st0)]\<rparr>"
          by blast
        have "\<exists>out tr. make_output env p st = Inr (out, tr)"
          by (simp add: make_output_def ex)
        then obtain out tr where o: "make_output env p st = Inr (out, tr)" by blast
        from make_output_trace(1) [OF o] obtain evs2 where
          m: "tr = trace st @ evs2" and s2: "list_all is_setup_event evs2" by blast
        note f2 = setup_events_filter [OF s2]
        have tr: "tr = trace st0 @ [Call_solve_once, Call_run_post_processing 0 False] @ evs2"
          using m st b0 by simp
        have r: "run env p log_level = Some (Inr (out, tr))"
          using b sim Inr o by (simp add: run_def return_output_def)
        have s: "simulate env p log_level = Some (Inr st)"
          using b sim Inr by simp
        have flt: "filter is_commit tr = []"
          "filter is_transport_solve tr = [Call_solve_once]"
          "filter is_post_processing tr = [Call_run_post_processing 0 False]"
          using f0 f2 by (simp_all add: tr)
        have fld: "st_u st = u_new" "derived_quantities_global st = dq" "st_t st = 0"
          "st_u_n st = initialise_solutions env"
          "previous_solutions_traps st =
             initialise_extrinsic_traps env (length (filter is_extrinsic (traps p)))"
          using b0 by (simp_all add: st)
        have pp': "run_post_processing env
                 (emit (Call_run_post_processing 0 False)
                    ((emit Call_solve_once st0)\<lparr>st_u := u_new\<rparr>)) = Inr (dq, dt_new)"
          using pp b0 by simp
        have inner: "\<exists>tr0 st0 u_new dq dt_new st.
                        export_stage env p = Inr tr0
                      \<and> build_problem env p False 0 (tr0 @ [Call_set_log_level log_level])
                          = Inr st0
                      \<and> solve_once env (emit Call_solve_once st0) = Inr u_new
                      \<and> run_post_processing env
                            (emit (Call_run_post_processing 0 False)
                               ((emit Call_solve_once st0)\<lparr>st_u := u_new\<rparr>))
                          = Inr (dq, dt_new)
                      \<and> simulate env p log_level = Some (Inr st)
                      \<and> make_output env p st = Inr (out, tr)
                      \<and> st_u st = u_new
                      \<and> derived_quantities_global st = dq
                      \<and> st_t st = 0
                      \<and> st_u_n st = initialise_solutions env
                      \<and> previous_solutions_traps st =
                          initialise_extrinsic_traps env
                            (length (filter is_extrinsic (traps p)))"
          using \<open>export_stage env p = Inr tr0\<close> b so pp' s o fld by blast
        show ?thesis
          using flt inner by (simp add: r)
      qed
    qed
  qed
qed

theorem stationary_run_solves_once_witness:
  "\<exists>out tr. run example_env (with_type (Some ''solve_stationary'') example_parameters) 40
               = Some (Inr (out, tr))
       \<and> filter is_commit tr = []
       \<and> filter is_transport_solve tr = [Call_solve_once]
       \<and> filter is_post_processing tr = [Call_run_post_processing 0 False]"
proof -
  let ?p = "with_type (Some ''solve_stationary'') example_parameters"
  have h: "sp_type (solving_parameters ?p) = Some ''solve_stationary''"
    by (simp add: with_type_def)
  have "\<exists>st. simulate example_env ?p 40 = Some (Inr st)"
    by (simp add: simulate_def export_stage_def after_export_def check_transient_def
          with_type_def example_parameters_def build_problem_def setup_temperature_def
          solve_steady_def Let_def emit_def raise_def example_env_def is_extrinsic_def)
  then obtain st where st: "simulate example_env ?p 40 = Some (Inr st)" by blast
  have "\<exists>out. make_output example_env ?p st = Inr (out, trace st)"
    by (simp add: make_output_def with_type_def example_parameters_def)
  then obtain out where o: "make_output example_env ?p st = Inr (out, trace st)" ..
  have r: "run example_env ?p 40 = Some (Inr (out, trace st))"
    by (simp add: run_def return_output_def st o)
  from stationary_run_solves_once [OF h, of example_env 40] show ?thesis
    by (simp add: r)
qed

section \<open>One iteration of the time loop\<close>

text \<open>
  C6: every solve of an iteration (heat, transport, traps) happens in \<open>solve_step\<close>, on
  the state left by lines 186-209. In that state the time has been advanced by \<open>dt\<close> and
  every registered expression carries the new time; the update of the expressions comes
  right after the advance of the time in the trace, with no solve before or between; and the
  heat solve leaves the expressions as they are, so that the transport solver sees them
  at the new time too.
\<close>

theorem expressions_updated_before_solves:
  "time_step env p st = and_then (solve_step env p (begin_step env p st)) (finish_step env)
   \<and> st_t (begin_step env p st) = st_t st + st_dt st
   \<and> synchronised (begin_step env p st)
   \<and> (\<exists>rest. trace (begin_step env p st) =
                trace st @ Advance_time (st_t st + st_dt st)
                  # Call_update_expressions (st_t st + st_dt st) # rest
              \<and> filter is_solve rest = [])
   \<and> (\<forall>st1. solve_heat_transfers env p (begin_step env p st) = Inr st1 \<longrightarrow>
          synchronised st1 \<and> st_t st1 = st_t st + st_dt st)"
proof (intro conjI allI impI)
  show "time_step env p st = and_then (solve_step env p (begin_step env p st)) (finish_step env)"
    by (rule time_step_def)
  show "st_t (begin_step env p st) = st_t st + st_dt st"
    by (rule begin_step_clock)
  show "synchronised (begin_step env p st)"
    by (rule begin_step_synchronised)
  show "\<exists>rest. trace (begin_step env p st) =
                trace st @ Advance_time (st_t st + st_dt st)
                  # Call_update_expressions (st_t st + st_dt st) # rest
              \<and> filter is_solve rest = []"
    by (rule begin_step_trace_head)
next
  fix st1 assume h: "solve_heat_transfers env p (begin_step env p st) = Inr st1"
  from solve_heat_transfers_synchronised [OF h begin_step_synchronised]
  show "synchronised st1" by simp
  from solve_heat_transfers_synchronised [OF h begin_step_synchronised]
  show "st_t st1 = st_t st + st_dt st" by (simp add: begin_step_clock)
qed

theorem expressions_updated_before_solves_witness:
  "st_t (begin_step example_env example_parameters example_state) = 3 / 10
   \<and> map expr_t (expressions (begin_step example_env example_parameters example_state))
       = [3 / 10, 3 / 10, 3 / 10, 3 / 10]
   \<and> (\<exists>st1. solve_heat_transfers example_env example_parameters
                (begin_step example_env example_parameters example_state) = Inr st1
             \<and> synchronised st1)"
proof -
  let ?b = "begin_step example_env example_parameters example_state"
  have v: "map expr_t (expressions ?b) = [3 / 10, 3 / 10, 3 / 10, 3 / 10]"
    by (simp add: begin_step_expressions example_state_eq update_expressions_def
          update_bci_def)
  have "\<exists>st1. solve_heat_transfers example_env example_parameters ?b = Inr st1"
    by (simp add: solve_heat_transfers_def Let_def example_env_def example_parameters_def)
  then obtain st1 where h: "solve_heat_transfers example_env example_parameters ?b = Inr st1" ..
  note inst = expressions_updated_before_solves [of example_env example_parameters example_state]
  from inst have t: "st_t ?b = st_t example_state + st_dt example_state" by (elim conjE)
  from inst have "\<forall>st1. solve_heat_transfers example_env example_parameters ?b = Inr st1 \<longrightarrow>
          synchronised st1 \<and> st_t st1 = st_t example_state + st_dt example_state"
    by (elim conjE)
  with h have s: "synchronised st1" by blast
  have t': "st_t example_state + st_dt example_state = 3 / 10"
    by (simp add: example_state_eq)
  from h s have "\<exists>st1. solve_heat_transfers example_env example_parameters ?b = Inr st1
             \<and> synchronised st1" by blast
  with v t t' show ?thesis by simp
qed

text \<open>
  C7: in an iteration of a transient run that completes, where the formulations built
  before the loop are one per declared extrinsic trap, the trap equations are solved once
  per extrinsic trap, in the order of declaration, each with the empty list of boundary
  conditions; these solves come right after the call of \<open>solve_it\<close> and right before the
  call of \<open>run_post_processing\<close>, which the updates of the previous solutions follow; no
  trap solve happens earlier in the iteration. Each of these events is a call of the
  collaborator: \<open>u\<close> at the end of the iteration is what \<open>solve_it\<close> returned; the trap field
  \<open>j\<close> at the end of the iteration is what \<open>solve_extrinsic\<close> returned for index \<open>j\<close> and the
  empty list, called with that \<open>u\<close>, with the trap fields before \<open>j\<close> solved and the others,
  and all the previous solutions, as they were when the iteration began; and
  \<open>run_post_processing\<close> is called with all the trap fields solved and the previous solutions
  not yet updated.
\<close>

theorem trap_odes_after_transport_before_post_processing:
  assumes "loop_state env p st"
    and "formulation_extrinsic_traps env (traps p) = length (filter is_extrinsic (traps p))"
    and "time_step env p st = Inr st'"
  shows "\<exists>pre. trace st' =
            trace st @ pre @ [Call_solve_it (st_t st')]
              @ map (\<lambda>j. Solve_extrinsic j []) [0 ..< length (filter is_extrinsic (traps p))]
              @ [Call_run_post_processing (st_t st') (append_flag st), Assign_u_n]
              @ map Assign_previous_trap [0 ..< length (previous_solutions_traps st)]
          \<and> filter is_trap_solve pre = []
          \<and> length (extrinsic_traps st') = length (filter is_extrinsic (traps p))
          \<and> (\<exists>s dt_new. solve_it env s = Inr (st_u st', dt_new)
                \<and> trace s = trace st @ pre @ [Call_solve_it (st_t st')])
          \<and> (\<forall>j < length (filter is_extrinsic (traps p)).
                \<exists>s. solve_extrinsic env j [] s = Inr (extrinsic_traps st' ! j)
                  \<and> trace s = trace st @ pre @ [Call_solve_it (st_t st')]
                                @ map (\<lambda>k. Solve_extrinsic k []) [0 ..< Suc j]
                  \<and> st_u s = st_u st' \<and> st_t s = st_t st'
                  \<and> previous_solutions_traps s = previous_solutions_traps st
                  \<and> (\<forall>k < j. extrinsic_traps s ! k = extrinsic_traps st' ! k)
                  \<and> (\<forall>k. j \<le> k \<longrightarrow> extrinsic_traps s ! k = extrinsic_traps st ! k))
          \<and> (\<exists>s dq dt_new. run_post_processing env s = Inr (dq, dt_new)
                \<and> extrinsic_traps s = extrinsic_traps st'
                \<and> previous_solutions_traps s = previous_solutions_traps st
                \<and> trace s = trace st @ pre @ [Call_solve_it (st_t st')]
                     @ map (\<lambda>j. Solve_extrinsic j [])
                         [0 ..< length (filter is_extrinsic (traps p))]
                     @ [Call_run_post_processing (st_t st') (append_flag st)])"
proof -
  let ?tm = "st_t st + st_dt st"
  let ?n = "length (filter is_extrinsic (traps p))"
  let ?pre = "begin_events p (props st) ?tm @ heat_events p"
  let ?b = "begin_step env p st"
  have n: "extrinsic_formulations st = ?n"
    and l: "length (extrinsic_traps st) = ?n"
    using loop_state_traps [OF assms(1)] assms(2) by simp_all
  have t: "st_t st' = ?tm" by (rule time_step_Inr_fields(2) [OF assms(3)])
  have "trace st' = trace st @ step_events p st"
    by (rule time_step_Inr_fields(1) [OF assms(3)])
  then have c1: "trace st' =
            trace st @ ?pre @ [Call_solve_it (st_t st')]
              @ map (\<lambda>j. Solve_extrinsic j []) [0 ..< ?n]
              @ [Call_run_post_processing (st_t st') (append_flag st), Assign_u_n]
              @ map Assign_previous_trap [0 ..< length (previous_solutions_traps st)]"
    by (simp add: step_events_def n t)
  have c2: "filter is_trap_solve ?pre = []"
    by (simp add: step_prefix_no_trap_solve)
  have c3: "length (extrinsic_traps st') = ?n"
    using time_step_Inr_fields(5) [OF assms(3)] l by simp
  from assms(3) obtain st3 where
    ss: "solve_step env p ?b = Inr st3" and fs: "finish_step env st3 = Inr st'"
    by (rule time_step_InrE)
  from ss obtain st1 st2 where
    h: "solve_heat_transfers env p ?b = Inr st1" and
    m: "solve_main_problem env st1 = Inr st2" and
    x: "solve_extrinsic_traps env [0 ..< extrinsic_formulations st2] st2 = Inr st3"
    by (auto simp: solve_step_def and_then_Inr_iff)
  from h obtain T_new T_n_new where
    e1: "st1 = ?b\<lparr>st_T := T_new, st_T_n := T_n_new, trace := trace ?b @ heat_events p\<rparr>"
    by (rule solve_heat_transfers_InrE) blast
  have f1: "trace st1 = trace st @ ?pre" "st_t st1 = ?tm"
    "extrinsic_traps st1 = extrinsic_traps st"
    "previous_solutions_traps st1 = previous_solutions_traps st"
    "extrinsic_formulations st1 = ?n" "append_flag st1 = append_flag st"
    by (simp_all add: e1 begin_step_trace begin_step_clock begin_step_traps begin_step_rest n)
  from m obtain u_new dt_new where
    e2: "st2 = st1\<lparr>st_u := u_new, st_dt := dt_new,
                   trace := trace st1 @ [Call_solve_it (st_t st1)]\<rparr>"
    and s2: "solve_it env (emit (Call_solve_it (st_t st1)) st1) = Inr (u_new, dt_new)"
    by (rule solve_main_problem_InrE)
  have f2: "trace st2 = trace st @ ?pre @ [Call_solve_it ?tm]" "st_t st2 = ?tm"
    "st_u st2 = u_new" "extrinsic_traps st2 = extrinsic_traps st"
    "previous_solutions_traps st2 = previous_solutions_traps st"
    "extrinsic_formulations st2 = ?n" "append_flag st2 = append_flag st"
    by (simp_all add: e2 f1)
  from x have x': "solve_extrinsic_traps env [0 ..< ?n] st2 = Inr st3"
    by (simp add: f2)
  from x' obtain traps_new where
    e3: "st3 = st2\<lparr>extrinsic_traps := traps_new,
                   trace := trace st2 @ map (\<lambda>j. Solve_extrinsic j []) [0 ..< ?n]\<rparr>"
    by (rule solve_extrinsic_traps_InrE)
  have f3: "trace st3 = trace st @ ?pre @ [Call_solve_it ?tm]
               @ map (\<lambda>j. Solve_extrinsic j []) [0 ..< ?n]"
    "st_t st3 = ?tm" "st_u st3 = u_new"
    "previous_solutions_traps st3 = previous_solutions_traps st"
    "append_flag st3 = append_flag st"
    by (simp_all add: e3 f2)
  from fs obtain dq dt_new' where
    e4: "st' = st3\<lparr>derived_quantities_global := dq, st_dt := dt_new', append_flag := True,
               st_u_n := st_u st3,
               previous_solutions_traps :=
                 take (length (previous_solutions_traps st3)) (extrinsic_traps st3),
               n_iter := Suc (n_iter st3),
               trace := trace st3
                 @ [Call_run_post_processing (st_t st3) (append_flag st3), Assign_u_n]
                 @ map Assign_previous_trap [0 ..< length (previous_solutions_traps st3)]\<rparr>"
    and r4: "run_post_processing env
           (emit (Call_run_post_processing (st_t st3) (append_flag st3)) st3) = Inr (dq, dt_new')"
    by (rule finish_step_InrE) blast
  have f4: "st_u st' = u_new" "extrinsic_traps st' = extrinsic_traps st3"
    by (simp_all add: e4 f3)
  have c4: "\<exists>s dt_new. solve_it env s = Inr (st_u st', dt_new)
                \<and> trace s = trace st @ ?pre @ [Call_solve_it (st_t st')]"
  proof (intro exI conjI)
    show "solve_it env (emit (Call_solve_it (st_t st1)) st1) = Inr (st_u st', dt_new)"
      using s2 by (simp add: f4)
    show "trace (emit (Call_solve_it (st_t st1)) st1)
            = trace st @ ?pre @ [Call_solve_it (st_t st')]"
      by (simp add: emit_def f1 t)
  qed
  have c5: "\<forall>j < ?n.
                \<exists>s. solve_extrinsic env j [] s = Inr (extrinsic_traps st' ! j)
                  \<and> trace s = trace st @ ?pre @ [Call_solve_it (st_t st')]
                                @ map (\<lambda>k. Solve_extrinsic k []) [0 ..< Suc j]
                  \<and> st_u s = st_u st' \<and> st_t s = st_t st'
                  \<and> previous_solutions_traps s = previous_solutions_traps st
                  \<and> (\<forall>k < j. extrinsic_traps s ! k = extrinsic_traps st' ! k)
                  \<and> (\<forall>k. j \<le> k \<longrightarrow> extrinsic_traps s ! k = extrinsic_traps st ! k)"
  proof (intro allI impI)
    fix j assume "j < ?n"
    from solve_extrinsic_traps_upt [OF x' this] obtain s where
      "solve_extrinsic env j [] s = Inr (extrinsic_traps st3 ! j)"
      "trace s = trace st2 @ map (\<lambda>k. Solve_extrinsic k []) [0 ..< Suc j]"
      "st_u s = st_u st2" "st_t s = st_t st2"
      "previous_solutions_traps s = previous_solutions_traps st2"
      "\<forall>k. j \<le> k \<longrightarrow> extrinsic_traps s ! k = extrinsic_traps st2 ! k"
      "\<forall>k < j. extrinsic_traps s ! k = extrinsic_traps st3 ! k"
      by blast
    then have "solve_extrinsic env j [] s = Inr (extrinsic_traps st' ! j)
                  \<and> trace s = trace st @ ?pre @ [Call_solve_it (st_t st')]
                                @ map (\<lambda>k. Solve_extrinsic k []) [0 ..< Suc j]
                  \<and> st_u s = st_u st' \<and> st_t s = st_t st'
                  \<and> previous_solutions_traps s = previous_solutions_traps st
                  \<and> (\<forall>k < j. extrinsic_traps s ! k = extrinsic_traps st' ! k)
                  \<and> (\<forall>k. j \<le> k \<longrightarrow> extrinsic_traps s ! k = extrinsic_traps st ! k)"
      by (simp add: f2 f4 t)
    then show "\<exists>s. solve_extrinsic env j [] s = Inr (extrinsic_traps st' ! j)
                  \<and> trace s = trace st @ ?pre @ [Call_solve_it (st_t st')]
                                @ map (\<lambda>k. Solve_extrinsic k []) [0 ..< Suc j]
                  \<and> st_u s = st_u st' \<and> st_t s = st_t st'
                  \<and> previous_solutions_traps s = previous_solutions_traps st
                  \<and> (\<forall>k < j. extrinsic_traps s ! k = extrinsic_traps st' ! k)
                  \<and> (\<forall>k. j \<le> k \<longrightarrow> extrinsic_traps s ! k = extrinsic_traps st ! k)" ..
  qed
  have c6: "\<exists>s dq dt_new. run_post_processing env s = Inr (dq, dt_new)
                \<and> extrinsic_traps s = extrinsic_traps st'
                \<and> previous_solutions_traps s = previous_solutions_traps st
                \<and> trace s = trace st @ ?pre @ [Call_solve_it (st_t st')]
                     @ map (\<lambda>j. Solve_extrinsic j []) [0 ..< ?n]
                     @ [Call_run_post_processing (st_t st') (append_flag st)]"
  proof (intro exI conjI)
    let ?s = "emit (Call_run_post_processing (st_t st3) (append_flag st3)) st3"
    show "run_post_processing env ?s = Inr (dq, dt_new')" by (rule r4)
    show "extrinsic_traps ?s = extrinsic_traps st'" by (simp add: emit_def f4)
    show "previous_solutions_traps ?s = previous_solutions_traps st"
      by (simp add: emit_def f3)
    show "trace ?s = trace st @ ?pre @ [Call_solve_it (st_t st')]
                     @ map (\<lambda>j. Solve_extrinsic j []) [0 ..< ?n]
                     @ [Call_run_post_processing (st_t st') (append_flag st)]"
      by (simp add: emit_def f3 t)
  qed
  from c1 c2 c3 c4 c5 c6 show ?thesis by blast
qed

theorem trap_odes_after_transport_before_post_processing_witness:
  "(\<exists>pre. trace example_next_state =
          trace example_state @ pre
            @ [Call_solve_it (3 / 10), Solve_extrinsic 0 [], Solve_extrinsic 1 [],
               Call_run_post_processing (3 / 10) False, Assign_u_n,
               Assign_previous_trap 0, Assign_previous_trap 1]
        \<and> filter is_trap_solve pre = [])
   \<and> (\<exists>s. solve_extrinsic example_env 1 [] s = Inr (extrinsic_traps example_next_state ! 1)
          \<and> st_u s = st_u example_next_state)"
proof -
  have h2: "formulation_extrinsic_traps example_env (traps example_parameters) =
              length (filter is_extrinsic (traps example_parameters))"
    by (simp add: example_env_def)
  have n: "length (filter is_extrinsic (traps example_parameters)) = 2"
    by (simp add: example_parameters_def is_extrinsic_def)
  have u: "[0 ..< (2::nat)] = [0, 1]" by (simp add: upt_rec)
  have f: "st_t example_next_state = 3 / 10" "append_flag example_state = False"
    "length (previous_solutions_traps example_state) = 2"
    by (simp_all add: example_next_state_def example_state_eq)
  from trap_odes_after_transport_before_post_processing
         [OF example_loop_state h2 example_time_step]
  obtain pre where
    a: "trace example_next_state =
          trace example_state @ pre
            @ [Call_solve_it (3 / 10), Solve_extrinsic 0 [], Solve_extrinsic 1 [],
               Call_run_post_processing (3 / 10) False, Assign_u_n,
               Assign_previous_trap 0, Assign_previous_trap 1]"
    and b: "filter is_trap_solve pre = []"
    and c: "\<forall>j < 2. \<exists>s. solve_extrinsic example_env j [] s
                            = Inr (extrinsic_traps example_next_state ! j)
                  \<and> st_u s = st_u example_next_state"
    unfolding n u f by (elim exE conjE) (simp, blast)
  from c have "\<exists>s. solve_extrinsic example_env 1 [] s
                            = Inr (extrinsic_traps example_next_state ! 1)
                  \<and> st_u s = st_u example_next_state" by simp
  with a b show ?thesis by blast
qed

text \<open>
  C5: at the head of an iteration of a transient run in which every extrinsic trap has its
  previous solution: when the iteration completes, post-processing has changed neither
  \<open>u\<close> nor the trap fields, \<open>u_n\<close> holds \<open>u\<close> and the previous trap solutions hold the
  trap fields as the trap solves of this iteration left them, and the assignments come
  after the post-processing call in the trace, none before it; when post-processing raises,
  the iteration raises with it and no assignment has been made.
\<close>

theorem previous_solutions_updated_after_post_processing:
  assumes "loop_state env p st"
    and "length (initialise_extrinsic_traps env (length (filter is_extrinsic (traps p))))
           = length (filter is_extrinsic (traps p))"
  shows "(\<forall>st'. time_step env p st = Inr st' \<longrightarrow>
            (\<exists>st3. solve_step env p (begin_step env p st) = Inr st3
               \<and> st_u st' = st_u st3 \<and> extrinsic_traps st' = extrinsic_traps st3
               \<and> st_u_n st' = st_u st3
               \<and> previous_solutions_traps st' = extrinsic_traps st3
               \<and> trace st' =
                   trace st3
                     @ [Call_run_post_processing (st_t st3) (append_flag st3), Assign_u_n]
                     @ map Assign_previous_trap [0 ..< length (extrinsic_traps st3)]
               \<and> filter is_commit (drop (length (trace st)) (trace st3)) = []))
         \<and> (\<forall>st3 x. solve_step env p (begin_step env p st) = Inr st3
                    \<and> post_processing env st3 = Inl x \<longrightarrow>
               time_step env p st = Inl x
               \<and> snd x = trace st3 @ [Call_run_post_processing (st_t st3) (append_flag st3)]
               \<and> filter is_commit (drop (length (trace st)) (snd x)) = [])"
proof -
  let ?b = "begin_step env p st"
  let ?tm = "st_t st + st_dt st"
  have lens: "length (extrinsic_traps st) = length (previous_solutions_traps st)"
    using loop_state_traps [OF assms(1)] assms(2) by simp
  have after_solves: "previous_solutions_traps st3 = previous_solutions_traps st
      \<and> length (extrinsic_traps st3) = length (extrinsic_traps st)
      \<and> filter is_commit (drop (length (trace st)) (trace st3)) = []"
    if s: "solve_step env p ?b = Inr st3" for st3
  proof -
    from s obtain T_new T_n_new u_new dt_mid traps_new where
      e3: "st3 = ?b\<lparr>st_T := T_new, st_T_n := T_n_new, st_u := u_new, st_dt := dt_mid,
               extrinsic_traps := traps_new,
               trace := trace ?b @ heat_events p @ [Call_solve_it (st_t ?b)]
                 @ map (\<lambda>j. Solve_extrinsic j []) [0 ..< extrinsic_formulations ?b]\<rparr>"
      and l3: "length traps_new = length (extrinsic_traps ?b)"
      by (rule solve_step_InrE) blast
    have "trace st3 = trace st @ (begin_events p (props st) ?tm @ heat_events p
            @ [Call_solve_it (st_t ?b)]
            @ map (\<lambda>j. Solve_extrinsic j []) [0 ..< extrinsic_formulations ?b])"
      by (simp add: e3 begin_step_trace)
    then have "filter is_commit (drop (length (trace st)) (trace st3)) = []"
      by (simp add: begin_events_no_solve step_prefix_no_trap_solve
            filter_commit_trap_solves)
    moreover have "previous_solutions_traps st3 = previous_solutions_traps st"
      by (simp add: e3 begin_step_traps)
    moreover have "length (extrinsic_traps st3) = length (extrinsic_traps st)"
      using l3 by (simp add: e3 begin_step_traps)
    ultimately show ?thesis by simp
  qed
  have part1: "\<exists>st3. solve_step env p ?b = Inr st3
               \<and> st_u st' = st_u st3 \<and> extrinsic_traps st' = extrinsic_traps st3
               \<and> st_u_n st' = st_u st3
               \<and> previous_solutions_traps st' = extrinsic_traps st3
               \<and> trace st' =
                   trace st3
                     @ [Call_run_post_processing (st_t st3) (append_flag st3), Assign_u_n]
                     @ map Assign_previous_trap [0 ..< length (extrinsic_traps st3)]
               \<and> filter is_commit (drop (length (trace st)) (trace st3)) = []"
    if ts: "time_step env p st = Inr st'" for st'
  proof -
    from ts obtain st3 where
      s: "solve_step env p ?b = Inr st3" and f: "finish_step env st3 = Inr st'"
      by (rule time_step_InrE)
    from f obtain dq dt_new where
      e4: "st' = st3\<lparr>derived_quantities_global := dq, st_dt := dt_new, append_flag := True,
               st_u_n := st_u st3,
               previous_solutions_traps :=
                 take (length (previous_solutions_traps st3)) (extrinsic_traps st3),
               n_iter := Suc (n_iter st3),
               trace := trace st3
                 @ [Call_run_post_processing (st_t st3) (append_flag st3), Assign_u_n]
                 @ map Assign_previous_trap [0 ..< length (previous_solutions_traps st3)]\<rparr>"
      by (rule finish_step_InrE) blast
    from after_solves [OF s] lens have
      l: "length (previous_solutions_traps st3) = length (extrinsic_traps st3)"
      and c: "filter is_commit (drop (length (trace st)) (trace st3)) = []"
      by simp_all
    have "st_u st' = st_u st3" "extrinsic_traps st' = extrinsic_traps st3"
      "st_u_n st' = st_u st3" "previous_solutions_traps st' = extrinsic_traps st3"
      "trace st' = trace st3
         @ [Call_run_post_processing (st_t st3) (append_flag st3), Assign_u_n]
         @ map Assign_previous_trap [0 ..< length (extrinsic_traps st3)]"
      by (simp_all add: e4 l)
    with s c show ?thesis by blast
  qed
  have part2: "time_step env p st = Inl x
               \<and> snd x = trace st3 @ [Call_run_post_processing (st_t st3) (append_flag st3)]
               \<and> filter is_commit (drop (length (trace st)) (snd x)) = []"
    if s: "solve_step env p ?b = Inr st3" and pp: "post_processing env st3 = Inl x"
    for st3 x
  proof -
    have t: "time_step env p st = Inl x"
      by (simp add: time_step_def s finish_step_def pp)
    have x: "snd x = trace st3 @ [Call_run_post_processing (st_t st3) (append_flag st3)]"
      by (rule post_processing_Inl [OF pp])
    from after_solves [OF s] have
      c: "filter is_commit (drop (length (trace st)) (trace st3)) = []" by simp
    from s obtain T_new T_n_new u_new dt_mid traps_new where
      "st3 = ?b\<lparr>st_T := T_new, st_T_n := T_n_new, st_u := u_new, st_dt := dt_mid,
               extrinsic_traps := traps_new,
               trace := trace ?b @ heat_events p @ [Call_solve_it (st_t ?b)]
                 @ map (\<lambda>j. Solve_extrinsic j []) [0 ..< extrinsic_formulations ?b]\<rparr>"
      by (rule solve_step_InrE) blast
    then have "length (trace st) \<le> length (trace st3)"
      by (simp add: begin_step_trace)
    with c have "filter is_commit (drop (length (trace st)) (snd x)) = []"
      by (simp add: x)
    with t x show ?thesis by simp
  qed
  from part1 part2 show ?thesis by blast
qed

theorem previous_solutions_updated_after_post_processing_witness:
  "st_u_n example_next_state = st_u example_next_state
   \<and> previous_solutions_traps example_next_state = [11, 12]
   \<and> extrinsic_traps example_next_state = [11, 12]
   \<and> (\<exists>st3. solve_step example_env example_parameters
               (begin_step example_env example_parameters example_state) = Inr st3
           \<and> previous_solutions_traps example_next_state = extrinsic_traps st3
           \<and> st_u_n example_next_state = st_u st3)"
proof -
  have h2: "length (initialise_extrinsic_traps example_env
                      (length (filter is_extrinsic (traps example_parameters))))
              = length (filter is_extrinsic (traps example_parameters))"
    by (simp add: example_env_def)
  from previous_solutions_updated_after_post_processing [OF example_loop_state h2]
  have "\<forall>st'. time_step example_env example_parameters example_state = Inr st' \<longrightarrow>
            (\<exists>st3. solve_step example_env example_parameters
                      (begin_step example_env example_parameters example_state) = Inr st3
               \<and> st_u st' = st_u st3 \<and> extrinsic_traps st' = extrinsic_traps st3
               \<and> st_u_n st' = st_u st3
               \<and> previous_solutions_traps st' = extrinsic_traps st3
               \<and> trace st' =
                   trace st3
                     @ [Call_run_post_processing (st_t st3) (append_flag st3), Assign_u_n]
                     @ map Assign_previous_trap [0 ..< length (extrinsic_traps st3)]
               \<and> filter is_commit (drop (length (trace example_state)) (trace st3)) = [])"
    by (rule conjunct1)
  with example_time_step obtain st3 where
    "solve_step example_env example_parameters
       (begin_step example_env example_parameters example_state) = Inr st3"
    "previous_solutions_traps example_next_state = extrinsic_traps st3"
    "st_u_n example_next_state = st_u st3"
    by blast
  moreover have "st_u_n example_next_state = st_u example_next_state"
    "previous_solutions_traps example_next_state = [11, 12]"
    "extrinsic_traps example_next_state = [11, 12]"
    by (simp_all add: example_next_state_def)
  ultimately show ?thesis by blast
qed

section \<open>The heat solve and the refresh of the properties\<close>

text \<open>
  C4, as stated, fails: the properties are rebound at lines 194-200, before the heat solve
  of lines 211-222, and only four of the six properties of line 126 are rebound. In the
  first iteration of the concrete run, whose temperature is solved as a transient problem,
  the rebinding of \<open>D\<close> comes before the heat solve and no heat solve comes before it; and
  \<open>cp\<close> and \<open>rho\<close>, which \<open>create_properties\<close> returned bound to another object than \<open>T\<close>,
  are still bound to it when the iteration ends, while \<open>D\<close> is bound to \<open>T\<close>.
\<close>

theorem heat_solve_follows_property_refresh:
  "temp_type (temperature example_parameters) = ''solve_transient''
   \<and> step_trace example_env example_parameters example_state =
       [Advance_time (3 / 10), Call_update_expressions (3 / 10),
        Rebind Prop_D, Rebind Prop_thermal_cond, Rebind Prop_S, Update_bci (3 / 10),
        Solve_heat (1 / 1000) (1 / 10000000000), Assign_T_n,
        Call_solve_it (3 / 10), Solve_extrinsic 0 [], Solve_extrinsic 1 [],
        Call_run_post_processing (3 / 10) False,
        Assign_u_n, Assign_previous_trap 0, Assign_previous_trap 1]
   \<and> \<not> happens_before (Solve_heat (1 / 1000) (1 / 10000000000)) (Rebind Prop_D)
         (step_trace example_env example_parameters example_state)
   \<and> happens_before (Rebind Prop_D) (Solve_heat (1 / 1000) (1 / 10000000000))
         (step_trace example_env example_parameters example_state)
   \<and> time_step example_env example_parameters example_state = Inr example_next_state
   \<and> D_T (props example_state) = Ref_other
   \<and> cp_T (props example_state) = Some Ref_other
   \<and> rho_T (props example_state) = Some Ref_other
   \<and> D_T (props example_next_state) = Ref_T
   \<and> cp_T (props example_next_state) = Some Ref_other
   \<and> rho_T (props example_next_state) = Some Ref_other"
proof -
  have t: "step_trace example_env example_parameters example_state =
       [Advance_time (3 / 10), Call_update_expressions (3 / 10),
        Rebind Prop_D, Rebind Prop_thermal_cond, Rebind Prop_S, Update_bci (3 / 10),
        Solve_heat (1 / 1000) (1 / 10000000000), Assign_T_n,
        Call_solve_it (3 / 10), Solve_extrinsic 0 [], Solve_extrinsic 1 [],
        Call_run_post_processing (3 / 10) False,
        Assign_u_n, Assign_previous_trap 0, Assign_previous_trap 1]"
  proof -
    have "step_trace example_env example_parameters example_state =
        drop (length (trace example_state)) (trace example_next_state)"
      by (simp only: step_trace_def example_time_step outcome_trace.simps)
    then show ?thesis
      by (simp add: example_state_eq example_next_state_def)
  qed
  have p: "temp_type (temperature example_parameters) = ''solve_transient''"
    by (simp add: example_parameters_def)
  have q: "D_T (props example_state) = Ref_other"
    "cp_T (props example_state) = Some Ref_other"
    "rho_T (props example_state) = Some Ref_other"
    "D_T (props example_next_state) = Ref_T"
    "cp_T (props example_next_state) = Some Ref_other"
    "rho_T (props example_next_state) = Some Ref_other"
    by (simp_all add: example_state_eq example_next_state_def)
  show ?thesis
    by (simp add: t p q example_time_step happens_before_def)
qed

text \<open>
  C4, amended: in an iteration that completes, with a temperature solved as a transient
  problem, the properties that lines 194-200 rebind (\<open>D\<close>, and \<open>H\<close>, \<open>thermal_cond\<close>, \<open>S\<close>
  when present) are first rebound to the temperature object \<open>T\<close>; then the heat problem is
  solved with absolute tolerance \<open>1e-3\<close> and relative tolerance \<open>1e-10\<close> and \<open>T\<close> is assigned
  to \<open>T_n\<close>; then the transport problem is solved. The properties hold a reference to \<open>T\<close>,
  so the transport solver runs on a state in which each of these four properties is bound
  to \<open>T\<close> and \<open>T\<close> holds the result of the heat solve of this iteration. The statement says
  nothing of \<open>cp\<close> and \<open>rho\<close>, which the loop does not rebind.
\<close>

theorem refresh_then_heat_solve_then_transport:
  assumes "temp_type (temperature p) = ''solve_transient''"
    and "time_step env p st = Inr st'"
  shows "(\<exists>rest. trace st' =
            trace st @ [Advance_time (st_t st'), Call_update_expressions (st_t st')]
              @ refresh_events (props st) (st_t st')
              @ [Solve_heat (1 / 10 ^ 3) (1 / 10 ^ 10), Assign_T_n, Call_solve_it (st_t st')]
              @ rest)
         \<and> D_T (props st') = Ref_T
         \<and> H_T (props st') = map_option (\<lambda>r. Ref_T) (H_T (props st))
         \<and> thermal_cond_T (props st') = map_option (\<lambda>r. Ref_T) (thermal_cond_T (props st))
         \<and> S_T (props st') = map_option (\<lambda>r. Ref_T) (S_T (props st))
         \<and> st_T_n st' = st_T st'
         \<and> (\<exists>s_heat. solve_FT_transient env (1 / 10 ^ 3) (1 / 10 ^ 10) s_heat = Inr (st_T st')
                \<and> props s_heat = props st')
         \<and> (\<exists>s_tr dt_new. solve_it env s_tr = Inr (st_u st', dt_new)
                \<and> st_T s_tr = st_T st' \<and> st_T_n s_tr = st_T st'
                \<and> props s_tr = props st')"
proof -
  let ?b = "begin_step env p st"
  let ?tm = "st_t st + st_dt st"
  from assms(2) obtain st3 where
    s: "solve_step env p ?b = Inr st3" and f: "finish_step env st3 = Inr st'"
    by (rule time_step_InrE)
  from s obtain T_new T_n_new u_new dt_mid traps_new where
    e3: "st3 = ?b\<lparr>st_T := T_new, st_T_n := T_n_new, st_u := u_new, st_dt := dt_mid,
             extrinsic_traps := traps_new,
             trace := trace ?b @ heat_events p @ [Call_solve_it (st_t ?b)]
               @ map (\<lambda>j. Solve_extrinsic j []) [0 ..< extrinsic_formulations ?b]\<rparr>"
    and heat: "temp_type (temperature p) = ''solve_transient'' \<Longrightarrow>
           T_n_new = T_new \<and>
           solve_FT_transient env heat_abs_tol heat_rel_tol
             (emit (Solve_heat heat_abs_tol heat_rel_tol) ?b) = Inr T_new"
    and main: "solve_it env
           (emit (Call_solve_it (st_t ?b))
              (?b\<lparr>st_T := T_new, st_T_n := T_n_new, trace := trace ?b @ heat_events p\<rparr>))
         = Inr (u_new, dt_mid)"
    by (rule solve_step_InrE) blast
  from f obtain dq dt_new where
    e4: "st' = st3\<lparr>derived_quantities_global := dq, st_dt := dt_new, append_flag := True,
             st_u_n := st_u st3,
             previous_solutions_traps :=
               take (length (previous_solutions_traps st3)) (extrinsic_traps st3),
             n_iter := Suc (n_iter st3),
             trace := trace st3
               @ [Call_run_post_processing (st_t st3) (append_flag st3), Assign_u_n]
               @ map Assign_previous_trap [0 ..< length (previous_solutions_traps st3)]\<rparr>"
    by (rule finish_step_InrE) blast
  from heat [OF assms(1)] have tn: "T_n_new = T_new"
    and hs: "solve_FT_transient env heat_abs_tol heat_rel_tol
               (emit (Solve_heat heat_abs_tol heat_rel_tol) ?b) = Inr T_new"
    by simp_all
  have t: "st_t st' = ?tm" by (rule time_step_Inr_fields(2) [OF assms(2)])
  have fields: "st_T st' = T_new" "st_T_n st' = T_new" "st_u st' = u_new"
    "props st' = props ?b"
    by (simp_all add: e4 e3 tn)
  have ne: "temp_type (temperature p) \<noteq> ''expression''"
    using assms(1) by simp
  have "trace st' = trace st @ step_events p st"
    by (rule time_step_Inr_fields(1) [OF assms(2)])
  then have "trace st' =
      trace st @ [Advance_time (st_t st'), Call_update_expressions (st_t st')]
        @ refresh_events (props st) (st_t st')
        @ [Solve_heat (1 / 10 ^ 3) (1 / 10 ^ 10), Assign_T_n, Call_solve_it (st_t st')]
        @ (map (\<lambda>j. Solve_extrinsic j []) [0 ..< extrinsic_formulations st]
           @ [Call_run_post_processing ?tm (append_flag st), Assign_u_n]
           @ map Assign_previous_trap [0 ..< length (previous_solutions_traps st)])"
    using assms(1) ne
    by (simp add: step_events_def begin_events_def heat_events_def heat_abs_tol_def
          heat_rel_tol_def t)
  then have c1: "\<exists>rest. trace st' =
      trace st @ [Advance_time (st_t st'), Call_update_expressions (st_t st')]
        @ refresh_events (props st) (st_t st')
        @ [Solve_heat (1 / 10 ^ 3) (1 / 10 ^ 10), Assign_T_n, Call_solve_it (st_t st')]
        @ rest" ..
  have c2: "D_T (props st') = Ref_T"
    "H_T (props st') = map_option (\<lambda>r. Ref_T) (H_T (props st))"
    "thermal_cond_T (props st') = map_option (\<lambda>r. Ref_T) (thermal_cond_T (props st))"
    "S_T (props st') = map_option (\<lambda>r. Ref_T) (S_T (props st))"
    by (simp_all add: fields begin_step_props)
  have c3: "st_T_n st' = st_T st'" by (simp add: fields)
  have "solve_FT_transient env (1 / 10 ^ 3) (1 / 10 ^ 10)
          (emit (Solve_heat heat_abs_tol heat_rel_tol) ?b) = Inr (st_T st')
        \<and> props (emit (Solve_heat heat_abs_tol heat_rel_tol) ?b) = props st'"
    using hs by (simp add: fields emit_def heat_abs_tol_def heat_rel_tol_def)
  then have c4: "\<exists>s_heat. solve_FT_transient env (1 / 10 ^ 3) (1 / 10 ^ 10) s_heat
                    = Inr (st_T st') \<and> props s_heat = props st'" ..
  let ?s_tr = "emit (Call_solve_it (st_t ?b))
              (?b\<lparr>st_T := T_new, st_T_n := T_n_new, trace := trace ?b @ heat_events p\<rparr>)"
  have "solve_it env ?s_tr = Inr (st_u st', dt_mid)
        \<and> st_T ?s_tr = st_T st' \<and> st_T_n ?s_tr = st_T st' \<and> props ?s_tr = props st'"
    using main by (simp add: fields emit_def tn)
  then have c5: "\<exists>s_tr dt_new. solve_it env s_tr = Inr (st_u st', dt_new)
                \<and> st_T s_tr = st_T st' \<and> st_T_n s_tr = st_T st'
                \<and> props s_tr = props st'" by blast
  from c1 c2 c3 c4 c5 show ?thesis by blast
qed

theorem refresh_then_heat_solve_then_transport_witness:
  "(\<exists>rest. trace example_next_state =
       trace example_state
         @ [Advance_time (3 / 10), Call_update_expressions (3 / 10),
            Rebind Prop_D, Rebind Prop_thermal_cond, Rebind Prop_S, Update_bci (3 / 10),
            Solve_heat (1 / 1000) (1 / 10000000000), Assign_T_n, Call_solve_it (3 / 10)]
         @ rest)
   \<and> D_T (props example_next_state) = Ref_T
   \<and> st_T_n example_next_state = st_T example_next_state"
proof -
  have h1: "temp_type (temperature example_parameters) = ''solve_transient''"
    by (simp add: example_parameters_def)
  have p: "props example_state =
             \<lparr> D_T = Ref_other, thermal_cond_T = Some Ref_other, cp_T = Some Ref_other,
          rho_T = Some Ref_other, H_T = None,
               S_T = Some Ref_other \<rparr>"
    and t: "st_t example_next_state = 3 / 10"
    by (simp_all add: example_state_eq example_next_state_def)
  note inst = refresh_then_heat_solve_then_transport [OF h1 example_time_step]
  from inst have "\<exists>rest. trace example_next_state =
       trace example_state
         @ [Advance_time (3 / 10), Call_update_expressions (3 / 10),
            Rebind Prop_D, Rebind Prop_thermal_cond, Rebind Prop_S, Update_bci (3 / 10),
            Solve_heat (1 / 1000) (1 / 10000000000), Assign_T_n, Call_solve_it (3 / 10)]
         @ rest"
    by (simp add: p t refresh_events_def)
  moreover from inst have "D_T (props example_next_state) = Ref_T" by (elim conjE)
  moreover from inst have "st_T_n example_next_state = st_T example_next_state"
    by (elim conjE)
  ultimately show ?thesis by blast
qed

section \<open>The reported retention\<close>

text \<open>
  C9: with solute concentration 1 and trap densities 2 and 3, the retention is 6 at every
  point, also when the solute is transported as \<open>1/3\<close> under a scaling factor \<open>S = 3\<close>,
  as in the test; in general the retention of two traps is the sum of the three fields at
  each point.
\<close>

theorem retention_of_two_traps:
  "retention (\<lambda>x. 1) [\<lambda>x. 2, \<lambda>x. 3] x = 6
   \<and> retention (reported_solute (Some 3) (\<lambda>x. 1 / 3)) [\<lambda>x. 2, \<lambda>x. 3] x = 6
   \<and> retention solute [trap_1, trap_2] x = solute x + trap_1 x + trap_2 x"
  by (simp add: retention_def reported_solute_def)

end
